theory Spec2Isabelle
  imports Main "HOL-Library.AList"
begin

section \<open>Python values, strings and errors\<close>

text \<open>
  A Python \<open>str\<close> is a sequence of Unicode code points, so it is a list of naturals;
  \<open>u ''nome''\<close> is the literal \<open>"nome"\<close>.  The file is written with
  \<open>encoding="utf-8"\<close>, which is injective on the texts it encodes, so the text is
  what the model keeps of the file.  UTF-8 encodes every code point but the surrogates
  (\<open>U+D800\<close> to \<open>U+DFFF\<close>); a \<open>str\<close> may hold one (an argument of the command line
  that is not valid UTF-8 is decoded to lone surrogates), and writing it to the file
  raises \<open>UnicodeEncodeError\<close>.
\<close>

type_synonym pystr = "nat list"

definition u :: "string \<Rightarrow> pystr" where
  "u s = map of_char s"

definition is_surrogate :: "nat \<Rightarrow> bool" where
  "is_surrogate c = (55296 \<le> c \<and> c \<le> 57343)"

definition utf8_encodable :: "pystr \<Rightarrow> bool" where
  "utf8_encodable t = (\<not> list_ex is_surrogate t)"

text \<open>
  The values a generator can hand to the program: \<open>None\<close>, the scalars, and any other
  object that is not a container (a \<open>date\<close>, a \<open>datetime\<close>, a \<open>Decimal\<close>), of which the
  program observes its \<open>str()\<close> and, when it has the method, its \<open>isoformat()\<close>.  A
  float is kept as its \<open>repr\<close>, the text \<open>str()\<close> and \<open>json\<close> print for it.  A list, a
  tuple or a dictionary, which some capabilities of a provider return, is not a value
  of this model: \<open>json\<close> would write it as a nested array or object, and is modelled
  on the values above only.
\<close>

datatype pyval =
    PNone
  | PBool bool
  | PInt int
  | PFloat pystr
  | PStr pystr
  | PObj pystr "pystr option"

datatype pyerr =
    AttributeError
  | TypeError
  | ValueError
  | OSError
  | UnicodeEncodeError
  | CsvError
  | ProviderFault pystr

text \<open>\<open>str()\<close> of an integer and of a value.\<close>

fun digits :: "nat \<Rightarrow> pystr" where
  "digits n = (if n < 10 then [48 + n] else digits (n div 10) @ [48 + n mod 10])"

declare digits.simps [simp del]

definition int_str :: "int \<Rightarrow> pystr" where
  "int_str i = (if i < 0 then 45 # digits (nat (- i)) else digits (nat i))"

definition py_str :: "pyval \<Rightarrow> pystr" where
  "py_str v =
     (case v of
        PNone \<Rightarrow> u ''None''
      | PBool b \<Rightarrow> (if b then u ''True'' else u ''False'')
      | PInt i \<Rightarrow> int_str i
      | PFloat r \<Rightarrow> r
      | PStr s \<Rightarrow> s
      | PObj s _ \<Rightarrow> s)"

text \<open>\<open>sep.join(parts)\<close> and \<open>text.split(sep)\<close> for a separator of one character.\<close>

fun join :: "pystr \<Rightarrow> pystr list \<Rightarrow> pystr" where
  "join sep [] = []"
| "join sep [x] = x"
| "join sep (x # y # ys) = x @ sep @ join sep (y # ys)"

fun split :: "nat \<Rightarrow> pystr \<Rightarrow> pystr list" where
  "split sep [] = [[]]"
| "split sep (c # cs) =
     (let parts = split sep cs in
      if c = sep then [] # parts else (c # hd parts) # tl parts)"

section \<open>The provider\<close>

text \<open>
  \<open>Faker\<close> is not part of the repository.  A provider instance \<open>fake\<close> is what
  \<open>getattr(fake, name)\<close> gives for every name: an error (\<open>AttributeError\<close> when the
  attribute is missing), a plain attribute, or a method.  A method takes its keyword
  arguments and the state \<open>'s\<close> of everything the library reads (its shared random
  source, the clock behind a date given as \<open>"now"\<close>) and returns a value and the next
  state, or raises.
\<close>

type_synonym kwargs = "(pystr \<times> pyval) list"

datatype 's attr =
    Data pyval
  | Method "kwargs \<Rightarrow> 's \<Rightarrow> pyerr + (pyval \<times> 's)"

type_synonym 's faker = "pystr \<Rightarrow> pyerr + 's attr"

definition hasattr :: "'s faker \<Rightarrow> pystr \<Rightarrow> pyerr + bool" where
  "hasattr fake name =
     (case fake name of
        Inl AttributeError \<Rightarrow> Inr False
      | Inl e \<Rightarrow> Inl e
      | Inr _ \<Rightarrow> Inr True)"

definition getattr_default :: "'s faker \<Rightarrow> pystr \<Rightarrow> 's attr \<Rightarrow> pyerr + 's attr" where
  "getattr_default fake name dflt =
     (case fake name of
        Inl AttributeError \<Rightarrow> Inr dflt
      | Inl e \<Rightarrow> Inl e
      | Inr a \<Rightarrow> Inr a)"

definition call :: "'s attr \<Rightarrow> kwargs \<Rightarrow> 's \<Rightarrow> pyerr + (pyval \<times> 's)" where
  "call a kw s = (case a of Method m \<Rightarrow> m kw s | Data _ \<Rightarrow> Inl TypeError)"

definition call_method :: "'s faker \<Rightarrow> pystr \<Rightarrow> kwargs \<Rightarrow> 's \<Rightarrow> pyerr + (pyval \<times> 's)" where
  "call_method fake name kw s =
     (case fake name of Inl e \<Rightarrow> Inl e | Inr a \<Rightarrow> call a kw s)"

definition lambda0 :: "('s \<Rightarrow> pyerr + (pyval \<times> 's)) \<Rightarrow> 's attr" where
  "lambda0 body = Method (\<lambda>kw s. if kw = [] then body s else Inl TypeError)"

definition and_then ::
  "pyerr + (pyval \<times> 's) \<Rightarrow> (pyval \<Rightarrow> pyerr + pyval) \<Rightarrow> pyerr + (pyval \<times> 's)" where
  "and_then r f =
     (case r of
        Inl e \<Rightarrow> Inl e
      | Inr (v, s) \<Rightarrow> (case f v of Inl e \<Rightarrow> Inl e | Inr w \<Rightarrow> Inr (w, s)))"

definition isoformat :: "pyval \<Rightarrow> pyerr + pyval" where
  "isoformat v =
     (case v of PObj _ (Some txt) \<Rightarrow> Inr (PStr txt) | _ \<Rightarrow> Inl AttributeError)"

section \<open>The generator registry\<close>

text \<open>
  A dict display evaluates its values in order; the first one that raises aborts the
  display.
\<close>

fun dict_literal :: "('k \<times> (pyerr + 'v)) list \<Rightarrow> pyerr + ('k \<times> 'v) list" where
  "dict_literal [] = Inr []"
| "dict_literal ((k, Inl e) # rest) = Inl e"
| "dict_literal ((k, Inr v) # rest) =
     (case dict_literal rest of Inl e \<Rightarrow> Inl e | Inr d \<Rightarrow> Inr ((k, v) # d))"

text \<open>
  \<open>get_field_generators\<close>.  \<open>fake.name\<close> is looked up when the dict is built, the body
  of a \<open>lambda\<close> when it is called.  \<open>float_2f\<close> is Python's
  \<open>float(f"{x:.2f}")\<close>; floating-point arithmetic is not modelled, so it is a parameter.
\<close>

definition get_field_generators ::
  "(pyval \<Rightarrow> pyerr + pyval) \<Rightarrow> 's faker \<Rightarrow> pyerr + (pystr \<times> 's attr) list" where
  "get_field_generators float_2f fake = dict_literal [
     (u ''nome'', fake (u ''name'')),
     (u ''primeiro_nome'', fake (u ''first_name'')),
     (u ''sobrenome'', fake (u ''last_name'')),
     (u ''email'', fake (u ''email'')),
     (u ''usuario'', fake (u ''user_name'')),
     (u ''senha'', fake (u ''password'')),
     (u ''data_nascimento'', Inr (lambda0 (\<lambda>s.
        and_then (call_method fake (u ''date_of_birth'')
          [(u ''minimum_age'', PInt 18), (u ''maximum_age'', PInt 80)] s) isoformat))),
     (u ''cpf'', Inr (lambda0 (\<lambda>s. call_method fake (u ''cpf'') [] s))),
     (u ''cnpj'', Inr (lambda0 (\<lambda>s. call_method fake (u ''cnpj'') [] s))),
     (u ''rg'', Inr (lambda0 (\<lambda>s. call_method fake (u ''rg'') [] s))),
     (u ''telefone'', Inr (lambda0 (\<lambda>s. call_method fake (u ''phone_number'') [] s))),
     (u ''celular'', Inr (lambda0 (\<lambda>s.
        case hasattr fake (u ''cellphone_number'') of
          Inl e \<Rightarrow> Inl e
        | Inr b \<Rightarrow>
            if b then call_method fake (u ''cellphone_number'') [] s
            else call_method fake (u ''phone_number'') [] s))),
     (u ''uuid'', fake (u ''uuid4'')),
     (u ''endereco'', fake (u ''street_address'')),
     (u ''bairro'', getattr_default fake (u ''bairro'')
        (lambda0 (\<lambda>s. call_method fake (u ''secondary_address'') [] s))),
     (u ''cidade'', fake (u ''city'')),
     (u ''estado'', fake (u ''state'')),
     (u ''cep'', fake (u ''postcode'')),
     (u ''pais'', fake (u ''country'')),
     (u ''empresa'', fake (u ''company'')),
     (u ''cargo'', fake (u ''job'')),
     (u ''cnpj_empresa'', Inr (lambda0 (\<lambda>s. call_method fake (u ''cnpj'') [] s))),
     (u ''url'', fake (u ''url'')),
     (u ''dominio'', fake (u ''domain_name'')),
     (u ''ip'', fake (u ''ipv4'')),
     (u ''preco'', Inr (lambda0 (\<lambda>s.
        and_then (call_method fake (u ''pyfloat'')
          [(u ''left_digits'', PInt 3), (u ''right_digits'', PInt 2),
           (u ''positive'', PBool True)] s) float_2f))),
     (u ''moeda'', fake (u ''currency_code'')),
     (u ''cartao_credito'', fake (u ''credit_card_number'')),
     (u ''data'', Inr (lambda0 (\<lambda>s.
        and_then (call_method fake (u ''date'') [] s) isoformat))),
     (u ''hora'', Inr (lambda0 (\<lambda>s. call_method fake (u ''time'') [] s))),
     (u ''timestamp'', Inr (lambda0 (\<lambda>s.
        and_then (call_method fake (u ''date_time_between'')
          [(u ''start_date'', PStr (u ''-2y'')), (u ''end_date'', PStr (u ''now''))] s)
          isoformat))),
     (u ''frase'', fake (u ''sentence'')),
     (u ''texto'', Inr (lambda0 (\<lambda>s.
        call_method fake (u ''text'') [(u ''max_nb_chars'', PInt 140)] s)))
   ]"

definition DEFAULT_SCHEMA :: "pystr list" where
  "DEFAULT_SCHEMA =
     [u ''nome'', u ''email'', u ''cpf'', u ''telefone'', u ''endereco'', u ''cidade'',
      u ''estado'', u ''cep'', u ''empresa'', u ''cargo'', u ''data'']"

section \<open>Rows and datasets\<close>

text \<open>
  \<open>str.strip()\<close> removes the characters \<open>str.isspace\<close> accepts from both ends.
\<close>

definition isspace :: "nat \<Rightarrow> bool" where
  "isspace c \<longleftrightarrow>
     (9 \<le> c \<and> c \<le> 13) \<or> (28 \<le> c \<and> c \<le> 32) \<or> c = 133 \<or> c = 160 \<or> c = 5760 \<or>
     (8192 \<le> c \<and> c \<le> 8202) \<or> c = 8232 \<or> c = 8233 \<or> c = 8239 \<or> c = 8287 \<or>
     c = 12288"

definition strip :: "pystr \<Rightarrow> pystr" where
  "strip s = rev (dropWhile isspace (rev (dropWhile isspace s)))"

text \<open>
  A record is a Python dict: keys in the order of their first insertion, and an
  assignment to a key already present replaces the value in place
  (\<open>AList.update\<close>).
\<close>

type_synonym row = "(pystr \<times> pyval) list"

definition is_None :: "'s attr \<Rightarrow> bool" where
  "is_None a = (case a of Data PNone \<Rightarrow> True | _ \<Rightarrow> False)"

text \<open>The body of the loop of \<open>build_row\<close>, up to the assignment \<open>row[f] = val\<close>.\<close>

definition field_value ::
  "'s faker \<Rightarrow> (pystr \<times> 's attr) list \<Rightarrow> pystr \<Rightarrow> 's \<Rightarrow> pyerr + (pyval \<times> 's)" where
  "field_value fake generators f s =
     (let gen = map_of generators f in
      if gen = None \<or> is_None (the gen) then
        (case hasattr fake f of
           Inl e \<Rightarrow> Inl e
         | Inr b \<Rightarrow> if b then call_method fake f [] s else Inr (PNone, s))
      else call (the gen) [] s)"

fun build_row_loop ::
  "'s faker \<Rightarrow> (pystr \<times> 's attr) list \<Rightarrow> pystr list \<Rightarrow> row \<Rightarrow> 's \<Rightarrow> pyerr + (row \<times> 's)" where
  "build_row_loop fake generators [] row s = Inr (row, s)"
| "build_row_loop fake generators (field # rest) row s =
     (let f = strip field in
      case field_value fake generators f s of
        Inl e \<Rightarrow> Inl e
      | Inr (val, s') \<Rightarrow> build_row_loop fake generators rest (AList.update f val row) s')"

definition build_row ::
  "(pyval \<Rightarrow> pyerr + pyval) \<Rightarrow> 's faker \<Rightarrow> pystr list \<Rightarrow> 's \<Rightarrow> pyerr + (row \<times> 's)" where
  "build_row float_2f fake schema s =
     (case get_field_generators float_2f fake of
        Inl e \<Rightarrow> Inl e
      | Inr generators \<Rightarrow> build_row_loop fake generators schema [] s)"

text \<open>
  \<open>[build_row(fake, schema) for _ in range(args.rows)]\<close>: one row for each element of
  the range, in order; \<open>range(n)\<close> is empty when \<open>n \<le> 0\<close>.
\<close>

definition py_range :: "int \<Rightarrow> int list" where
  "py_range n = [0..n - 1]"

fun rows_for :: "('s \<Rightarrow> pyerr + (row \<times> 's)) \<Rightarrow> int list \<Rightarrow> 's \<Rightarrow> pyerr + (row list \<times> 's)" where
  "rows_for mk [] s = Inr ([], s)"
| "rows_for mk (i # is) s =
     (case mk s of
        Inl e \<Rightarrow> Inl e
      | Inr (r, s') \<Rightarrow>
          (case rows_for mk is s' of Inl e \<Rightarrow> Inl e | Inr (rs, s'') \<Rightarrow> Inr (r # rs, s'')))"

definition build_dataset ::
  "(pyval \<Rightarrow> pyerr + pyval) \<Rightarrow> 's faker \<Rightarrow> pystr list \<Rightarrow> int \<Rightarrow> 's \<Rightarrow> pyerr + (row list \<times> 's)" where
  "build_dataset float_2f fake schema count s =
     rows_for (build_row float_2f fake schema) (py_range count) s"

section \<open>Serialisation\<close>

subsection \<open>CSV: \<open>csv.DictWriter\<close> on the \<open>excel\<close> dialect\<close>

text \<open>
  The dialect: delimiter \<open>,\<close> (44), quote character \<open>"\<close> (34), \<open>doublequote\<close>,
  \<open>QUOTE_MINIMAL\<close>, no escape character, line terminator \<open>\r\n\<close> (13, 10).  The file
  is opened with \<open>newline=""\<close>, so what the writer emits is the text of the file.

  \<open>writerow\<close> converts a field (\<open>None\<close> to the empty text, a \<open>str\<close> to itself,
  anything else through \<open>str()\<close>), copies it character by character, doubling each
  quote and noting whether a character asks for quoting, and encloses it in quotes when
  one does.  A record of one empty field is written as \<open>""\<close>.
\<close>

definition csv_text :: "pyval \<Rightarrow> pystr" where
  "csv_text v = (case v of PNone \<Rightarrow> [] | PStr s \<Rightarrow> s | _ \<Rightarrow> py_str v)"

fun join_append_data :: "pystr \<Rightarrow> pystr \<times> bool" where
  "join_append_data [] = ([], False)"
| "join_append_data (c # cs) =
     (let (data, quoted) = join_append_data cs in
      if c = 44 \<or> c = 34 \<or> c = 13 \<or> c = 10
      then ((if c = 34 then [34, 34] else [c]) @ data, True)
      else (c # data, quoted))"

definition join_append :: "pystr \<Rightarrow> bool \<Rightarrow> pystr" where
  "join_append fld quoted =
     (let (data, q) = join_append_data fld in
      if quoted \<or> q then [34] @ data @ [34] else data)"

definition writerow :: "pyval list \<Rightarrow> pystr" where
  "writerow vals =
     (let rec = join [44] (map (\<lambda>v. join_append (csv_text v) False) vals);
          rec' = (if vals \<noteq> [] \<and> rec = [] then join_append [] True else rec)
      in rec' @ [13, 10])"

text \<open>\<open>dict(pairs)\<close>: the pairs are inserted in order.\<close>

definition dict_of :: "('k \<times> 'v) list \<Rightarrow> ('k \<times> 'v) list" where
  "dict_of pairs = foldl (\<lambda>d (k, v). AList.update k v d) [] pairs"

definition dict_get :: "row \<Rightarrow> pystr \<Rightarrow> pyval \<Rightarrow> pyval" where
  "dict_get d k dflt = (case map_of d k of None \<Rightarrow> dflt | Some v \<Rightarrow> v)"

text \<open>
  \<open>DictWriter._dict_to_list\<close> with \<open>extrasaction="raise"\<close> and \<open>restval=""\<close>: a key of
  the row that is no field name is a \<open>ValueError\<close>; a field name the row does not have
  is written as the empty text.
\<close>

definition dict_to_list :: "pystr list \<Rightarrow> row \<Rightarrow> pyerr + pyval list" where
  "dict_to_list fieldnames rowdict =
     (if list_ex (\<lambda>k. k \<notin> set fieldnames) (map fst rowdict) then Inl ValueError
      else Inr (map (\<lambda>key. dict_get rowdict key (PStr [])) fieldnames))"

definition DictWriter_writerow :: "pystr list \<Rightarrow> row \<Rightarrow> pyerr + pystr" where
  "DictWriter_writerow fieldnames rowdict =
     (case dict_to_list fieldnames rowdict of
        Inl e \<Rightarrow> Inl e
      | Inr vals \<Rightarrow> Inr (writerow vals))"

definition writeheader :: "pystr list \<Rightarrow> pyerr + pystr" where
  "writeheader fieldnames =
     DictWriter_writerow fieldnames (dict_of (zip fieldnames (map PStr fieldnames)))"

fun writerows :: "pystr list \<Rightarrow> row list \<Rightarrow> pyerr + pystr" where
  "writerows fieldnames [] = Inr []"
| "writerows fieldnames (r # rs) =
     (case DictWriter_writerow fieldnames r of
        Inl e \<Rightarrow> Inl e
      | Inr line \<Rightarrow>
          (case writerows fieldnames rs of
             Inl e \<Rightarrow> Inl e
           | Inr lines \<Rightarrow> Inr (line @ lines)))"

definition write_csv :: "pystr list \<Rightarrow> row list \<Rightarrow> pyerr + pystr" where
  "write_csv fieldnames rows =
     (case writeheader fieldnames of
        Inl e \<Rightarrow> Inl e
      | Inr header \<Rightarrow>
          (case writerows fieldnames rows of
             Inl e \<Rightarrow> Inl e
           | Inr lines \<Rightarrow> Inr (header @ lines)))"

subsection \<open>JSON: \<open>json.dump(rows, f, ensure_ascii=False, indent=2)\<close>\<close>

text \<open>
  With \<open>ensure_ascii=False\<close> a string is encoded by \<open>encode_basestring\<close>: only the
  backslash, the quote and the control characters below 32 are escaped.
\<close>

definition hex_digit :: "nat \<Rightarrow> nat" where
  "hex_digit d = (if d < 10 then 48 + d else 87 + d)"

definition json_escape :: "nat \<Rightarrow> pystr" where
  "json_escape c =
     (if c = 92 then [92, 92]
      else if c = 34 then [92, 34]
      else if c = 8 then [92, 98]
      else if c = 12 then [92, 102]
      else if c = 10 then [92, 110]
      else if c = 13 then [92, 114]
      else if c = 9 then [92, 116]
      else if c < 32 then [92, 117, 48, 48, hex_digit (c div 16), hex_digit (c mod 16)]
      else [c])"

definition encode_basestring :: "pystr \<Rightarrow> pystr" where
  "encode_basestring s = [34] @ concat (map json_escape s) @ [34]"

definition floatstr :: "pystr \<Rightarrow> pystr" where
  "floatstr r =
     (if r = u ''nan'' then u ''NaN''
      else if r = u ''inf'' then u ''Infinity''
      else if r = u ''-inf'' then u ''-Infinity''
      else r)"

text \<open>
  A value of a record, as \<open>_iterencode_dict\<close> writes it.  The encoder has no
  \<open>default\<close>, so any other object is a \<open>TypeError\<close>.
\<close>

definition json_value :: "pyval \<Rightarrow> pyerr + pystr" where
  "json_value v =
     (case v of
        PStr s \<Rightarrow> Inr (encode_basestring s)
      | PNone \<Rightarrow> Inr (u ''null'')
      | PBool b \<Rightarrow> Inr (if b then u ''true'' else u ''false'')
      | PInt i \<Rightarrow> Inr (int_str i)
      | PFloat r \<Rightarrow> Inr (floatstr r)
      | PObj _ _ \<Rightarrow> Inl TypeError)"

definition newline_indent :: "nat \<Rightarrow> pystr" where
  "newline_indent level = 10 # concat (replicate level (u ''  ''))"

fun iterencode_items :: "pystr \<Rightarrow> bool \<Rightarrow> row \<Rightarrow> pyerr + pystr" where
  "iterencode_items item_separator first [] = Inr []"
| "iterencode_items item_separator first ((k, v) # items) =
     (case json_value v of
        Inl e \<Rightarrow> Inl e
      | Inr txt \<Rightarrow>
          (case iterencode_items item_separator False items of
             Inl e \<Rightarrow> Inl e
           | Inr more \<Rightarrow>
               Inr ((if first then [] else item_separator) @
                    encode_basestring k @ u '': '' @ txt @ more)))"

definition iterencode_dict :: "row \<Rightarrow> nat \<Rightarrow> pyerr + pystr" where
  "iterencode_dict dct level =
     (if dct = [] then Inr (u ''{}'')
      else
        (case iterencode_items (u '','' @ newline_indent (level + 1)) True dct of
           Inl e \<Rightarrow> Inl e
         | Inr body \<Rightarrow>
             Inr (u ''{'' @ newline_indent (level + 1) @ body @
                  newline_indent level @ u ''}'')))"

fun iterencode_elems :: "pystr \<Rightarrow> nat \<Rightarrow> bool \<Rightarrow> row list \<Rightarrow> pyerr + pystr" where
  "iterencode_elems separator level first [] = Inr []"
| "iterencode_elems separator level first (d # ds) =
     (case iterencode_dict d level of
        Inl e \<Rightarrow> Inl e
      | Inr txt \<Rightarrow>
          (case iterencode_elems separator level False ds of
             Inl e \<Rightarrow> Inl e
           | Inr more \<Rightarrow> Inr ((if first then [] else separator) @ txt @ more)))"

definition iterencode_list :: "row list \<Rightarrow> nat \<Rightarrow> pyerr + pystr" where
  "iterencode_list lst level =
     (if lst = [] then Inr (u ''[]'')
      else
        (case iterencode_elems (u '','' @ newline_indent (level + 1)) (level + 1) True lst of
           Inl e \<Rightarrow> Inl e
         | Inr body \<Rightarrow>
             Inr (u ''['' @ newline_indent (level + 1) @ body @
                  newline_indent level @ u '']'')))"

definition json_dump :: "row list \<Rightarrow> pyerr + pystr" where
  "json_dump rows = iterencode_list rows 0"

subsection \<open>Writing to the file\<close>

text \<open>
  Neither writer builds the whole text before it writes: \<open>csv\<close> calls \<open>f.write\<close> with
  one line at a time, \<open>writerows\<close> converting each record just before its line, and
  \<open>json.dump\<close> calls it with one chunk of the encoder's generator at a time.  So the
  run of a writer is a sequence of steps, each either a text handed to \<open>f.write\<close> or
  an exception that ends the run; what was written before the exception was written.
  For a record of a JSON file the key and the colon come before the value, and with
  them everything that precedes a value \<open>json\<close> cannot serialise.
\<close>

type_synonym chunks = "(pyerr + pystr) list"

definition csv_chunks :: "pystr list \<Rightarrow> row list \<Rightarrow> chunks" where
  "csv_chunks fieldnames rows =
     writeheader fieldnames # map (DictWriter_writerow fieldnames) rows"

fun items_chunks :: "pystr \<Rightarrow> bool \<Rightarrow> row \<Rightarrow> chunks" where
  "items_chunks item_separator first [] = []"
| "items_chunks item_separator first ((k, v) # items) =
     Inr ((if first then [] else item_separator) @ encode_basestring k @ u '': '') #
     json_value v # items_chunks item_separator False items"

definition dict_chunks :: "row \<Rightarrow> nat \<Rightarrow> chunks" where
  "dict_chunks dct level =
     (if dct = [] then [Inr (u ''{}'')]
      else
        Inr (u ''{'' @ newline_indent (level + 1)) #
        items_chunks (u '','' @ newline_indent (level + 1)) True dct @
        [Inr (newline_indent level @ u ''}'')])"

fun elems_chunks :: "pystr \<Rightarrow> nat \<Rightarrow> bool \<Rightarrow> row list \<Rightarrow> chunks" where
  "elems_chunks separator level first [] = []"
| "elems_chunks separator level first (d # ds) =
     Inr (if first then [] else separator) #
     dict_chunks d level @ elems_chunks separator level False ds"

definition list_chunks :: "row list \<Rightarrow> nat \<Rightarrow> chunks" where
  "list_chunks lst level =
     (if lst = [] then [Inr (u ''[]'')]
      else
        Inr (u ''['' @ newline_indent (level + 1)) #
        elems_chunks (u '','' @ newline_indent (level + 1)) (level + 1) True lst @
        [Inr (newline_indent level @ u '']'')])"

definition json_chunks :: "row list \<Rightarrow> chunks" where
  "json_chunks rows = list_chunks rows 0"

text \<open>
  A file that takes every text, as \<open>io.StringIO\<close> does, holds the texts one after the
  other when the run ends without an exception: this is the text \<open>write_csv\<close> and
  \<open>json_dump\<close> give (\<open>write_csv_chunks\<close>, \<open>json_dump_chunks\<close>).
\<close>

fun chunks_text :: "chunks \<Rightarrow> pyerr + pystr" where
  "chunks_text [] = Inr []"
| "chunks_text (Inl e # cs) = Inl e"
| "chunks_text (Inr t # cs) =
     (case chunks_text cs of
        Inl e \<Rightarrow> Inl e
      | Inr following \<Rightarrow> Inr (t @ following))"

text \<open>
  The file of the program is opened with \<open>encoding="utf-8"\<close> and the default
  \<open>errors="strict"\<close>: \<open>f.write\<close> encodes the text it is given on the spot, and raises
  \<open>UnicodeEncodeError\<close> when it holds a surrogate.  The first step that fails decides
  the exception of the run.  Once open, the file is taken to accept what is written (a
  full disk is not modelled).  The JSON file is opened without \<open>newline=""\<close>: the text
  kept is the text written, which is the text of the file where the line separator of
  the platform is \<open>\n\<close>.
\<close>

fun write_chunks :: "chunks \<Rightarrow> pystr \<Rightarrow> pyerr + pystr" where
  "write_chunks [] content = Inr content"
| "write_chunks (Inl e # cs) content = Inl e"
| "write_chunks (Inr t # cs) content =
     (if utf8_encodable t then write_chunks cs (content @ t) else Inl UnicodeEncodeError)"

section \<open>The program\<close>

text \<open>
  The parsed command line, and what the program leaves behind: the file it wrote and
  the lines it printed.
\<close>

datatype fmt = Csv | Json

record args =
  arg_rows :: int
  arg_locale :: pystr
  arg_format :: fmt
  arg_schema :: pystr
  arg_output :: "pystr option"
  arg_seed :: "int option"

record outcome =
  out_path :: pystr
  out_text :: pystr
  out_stdout :: pystr

text \<open>
  What \<open>main\<close> takes from outside the repository: the constructor \<open>Faker(locale)\<close>, the
  class method \<open>Faker.seed\<close> (it re-seeds the shared random source), Python's
  \<open>float(f"{x:.2f}")\<close>, \<open>datetime.now().strftime("%Y%m%d_%H%M%S")\<close>, the exception
  \<open>open(path, "w", ...)\<close> raises when it does not open the file, and the exception
  \<open>print(line)\<close> raises when the standard output does not take the line (its encoding
  and error handler are those of the terminal or of the environment).
\<close>

record 's env =
  Faker :: "pystr \<Rightarrow> pyerr + 's faker"
  Faker_seed :: "int \<Rightarrow> 's \<Rightarrow> 's"
  float_2f :: "pyval \<Rightarrow> pyerr + pyval"
  now_stamp :: "'s \<Rightarrow> pystr"
  open_w :: "pystr \<Rightarrow> pyerr option"
  print_line :: "pystr \<Rightarrow> pyerr option"

definition format_name :: "fmt \<Rightarrow> pystr" where
  "format_name f = (case f of Csv \<Rightarrow> u ''csv'' | Json \<Rightarrow> u ''json'')"

text \<open>\<open>[s.strip() for s in args.schema.split(",") if s.strip()]\<close>\<close>

definition parse_schema :: "pystr \<Rightarrow> pystr list" where
  "parse_schema text = map strip (filter (\<lambda>s. strip s \<noteq> []) (split 44 text))"

text \<open>The text the writer of the format produces, and its run on the file of the program.\<close>

definition serialize :: "fmt \<Rightarrow> pystr list \<Rightarrow> row list \<Rightarrow> pyerr + pystr" where
  "serialize f schema rows =
     (case f of Csv \<Rightarrow> write_csv schema rows | Json \<Rightarrow> json_dump rows)"

definition write_file :: "fmt \<Rightarrow> pystr list \<Rightarrow> row list \<Rightarrow> pyerr + pystr" where
  "write_file f schema rows =
     write_chunks (case f of Csv \<Rightarrow> csv_chunks schema rows | Json \<Rightarrow> json_chunks rows) []"

text \<open>The three calls of \<open>print\<close>; each ends its line with a line feed.\<close>

fun print_lines :: "(pystr \<Rightarrow> pyerr option) \<Rightarrow> pystr list \<Rightarrow> pyerr + pystr" where
  "print_lines pr [] = Inr []"
| "print_lines pr (l # ls) =
     (case pr l of
        Some e \<Rightarrow> Inl e
      | None \<Rightarrow>
          (case print_lines pr ls of
             Inl e \<Rightarrow> Inl e
           | Inr printed \<Rightarrow> Inr (l @ [10] @ printed)))"

definition main :: "'s env \<Rightarrow> args \<Rightarrow> 's \<Rightarrow> pyerr + (outcome \<times> 's)" where
  "main env args s0 =
     (case Faker env (arg_locale args) of
        Inl e \<Rightarrow> Inl e
      | Inr fake \<Rightarrow>
          (let s1 = (case arg_seed args of None \<Rightarrow> s0 | Some k \<Rightarrow> Faker_seed env k s0);
               schema = parse_schema (arg_schema args)
           in case build_dataset (float_2f env) fake schema (arg_rows args) s1 of
                Inl e \<Rightarrow> Inl e
              | Inr (rows, s2) \<Rightarrow>
                  (let path =
                         (case arg_output args of
                            None \<Rightarrow>
                              u ''fake_data_'' @ arg_locale args @ u ''_'' @ now_stamp env s2 @
                              u ''.'' @ format_name (arg_format args)
                          | Some p \<Rightarrow> p)
                   in case open_w env path of
                        Some e \<Rightarrow> Inl e
                      | None \<Rightarrow>
                          (case write_file (arg_format args) schema rows of
                             Inl e \<Rightarrow> Inl e
                           | Inr content \<Rightarrow>
                               (case print_lines (print_line env)
                                       [u ''Arquivo gerado: '' @ path,
                                        u ''Campos: '' @ join (u '', '') schema,
                                        u ''Linhas: '' @ int_str (int (length rows))] of
                                  Inl e \<Rightarrow> Inl e
                                | Inr printed \<Rightarrow>
                                    Inr (\<lparr>out_path = path, out_text = content,
                                          out_stdout = printed\<rparr>, s2))))))"

definition default_args :: args where
  "default_args =
     \<lparr>arg_rows = 100, arg_locale = u ''pt_BR'', arg_format = Csv,
      arg_schema = join (u '','') DEFAULT_SCHEMA, arg_output = None, arg_seed = None\<rparr>"

section \<open>Reading the file back\<close>

text \<open>
  Python's \<open>csv.reader\<close> (3.11 and later) on the same dialect, \<open>strict=False\<close>, for a
  file opened with \<open>newline=""\<close>; it is what \<open>csv.DictReader\<close> parses with.  It is not
  part of the program: it states what parsing the written file gives.  The reader's
  limit on the length of a field (\<open>csv.field_size_limit\<close>) is taken to be above every
  field of the file.

  The reader is fed the characters of one line after the other, and an end-of-line
  mark after each line.  A line ends after \<open>\n\<close>, after a \<open>\r\<close> that no \<open>\n\<close> follows,
  and at the end of the text.
\<close>

datatype rstate =
    START_RECORD
  | START_FIELD
  | IN_FIELD
  | IN_QUOTED_FIELD
  | QUOTE_IN_QUOTED_FIELD
  | EAT_CRNL

type_synonym reader = "rstate \<times> pystr \<times> pystr list"

definition start_field :: "pystr \<Rightarrow> pystr list \<Rightarrow> nat \<Rightarrow> reader" where
  "start_field cur fs c =
     (if c = 10 \<or> c = 13 then (EAT_CRNL, [], fs @ [cur])
      else if c = 34 then (IN_QUOTED_FIELD, cur, fs)
      else if c = 44 then (START_FIELD, [], fs @ [cur])
      else (IN_FIELD, cur @ [c], fs))"

fun process_char :: "reader \<Rightarrow> nat \<Rightarrow> pyerr + reader" where
  "process_char (START_RECORD, cur, fs) c =
     (if c = 10 \<or> c = 13 then Inr (EAT_CRNL, cur, fs) else Inr (start_field cur fs c))"
| "process_char (START_FIELD, cur, fs) c = Inr (start_field cur fs c)"
| "process_char (IN_FIELD, cur, fs) c =
     (if c = 10 \<or> c = 13 then Inr (EAT_CRNL, [], fs @ [cur])
      else if c = 44 then Inr (START_FIELD, [], fs @ [cur])
      else Inr (IN_FIELD, cur @ [c], fs))"
| "process_char (IN_QUOTED_FIELD, cur, fs) c =
     (if c = 34 then Inr (QUOTE_IN_QUOTED_FIELD, cur, fs)
      else Inr (IN_QUOTED_FIELD, cur @ [c], fs))"
| "process_char (QUOTE_IN_QUOTED_FIELD, cur, fs) c =
     (if c = 34 then Inr (IN_QUOTED_FIELD, cur @ [c], fs)
      else if c = 44 then Inr (START_FIELD, [], fs @ [cur])
      else if c = 10 \<or> c = 13 then Inr (EAT_CRNL, [], fs @ [cur])
      else Inr (IN_FIELD, cur @ [c], fs))"
| "process_char (EAT_CRNL, cur, fs) c =
     (if c = 10 \<or> c = 13 then Inr (EAT_CRNL, cur, fs) else Inl CsvError)"

fun process_eol :: "reader \<Rightarrow> reader" where
  "process_eol (START_RECORD, cur, fs) = (START_RECORD, cur, fs)"
| "process_eol (START_FIELD, cur, fs) = (START_RECORD, [], fs @ [cur])"
| "process_eol (IN_FIELD, cur, fs) = (START_RECORD, [], fs @ [cur])"
| "process_eol (IN_QUOTED_FIELD, cur, fs) = (IN_QUOTED_FIELD, cur, fs)"
| "process_eol (QUOTE_IN_QUOTED_FIELD, cur, fs) = (START_RECORD, [], fs @ [cur])"
| "process_eol (EAT_CRNL, cur, fs) = (START_RECORD, cur, fs)"

definition line_ends :: "nat \<Rightarrow> pystr \<Rightarrow> bool" where
  "line_ends c rest \<longleftrightarrow> c = 10 \<or> (c = 13 \<and> (rest = [] \<or> hd rest \<noteq> 10)) \<or> rest = []"

text \<open>
  The records of a text.  When a line leaves the reader at the start of a record, the
  fields read so far are a record (an empty line gives the record \<open>[]\<close>); inside a
  quoted field the record goes on with the next line.  At the end of the text, an
  unfinished record is given as it stands.
\<close>

fun reader_run :: "reader \<Rightarrow> pystr \<Rightarrow> pyerr + pystr list list" where
  "reader_run (st, cur, fs) [] =
     (if st = IN_QUOTED_FIELD \<or> cur \<noteq> [] then Inr [fs @ [cur]] else Inr [])"
| "reader_run rd (c # cs) =
     (case process_char rd c of
        Inl e \<Rightarrow> Inl e
      | Inr rd' \<Rightarrow>
          if line_ends c cs then
            (case process_eol rd' of
               (START_RECORD, cur, fs) \<Rightarrow>
                 (case reader_run (START_RECORD, [], []) cs of
                    Inl e \<Rightarrow> Inl e
                  | Inr recs \<Rightarrow> Inr (fs # recs))
             | rd'' \<Rightarrow> reader_run rd'' cs)
          else reader_run rd' cs)"

definition csv_reader :: "pystr \<Rightarrow> pyerr + pystr list list" where
  "csv_reader text = reader_run (START_RECORD, [], []) text"

text \<open>
  The records \<open>csv.DictReader\<close> builds from the rows after the header: it skips the
  rows that are \<open>[]\<close> and pairs the others with the header.  (Rows longer or shorter
  than the header, which get \<open>restkey\<close> and \<open>restval\<close>, do not occur in a file the
  program writes and are an error here.)
\<close>

definition read_records :: "pystr \<Rightarrow> pyerr + row list" where
  "read_records text =
     (case csv_reader text of
        Inl e \<Rightarrow> Inl e
      | Inr [] \<Rightarrow> Inr []
      | Inr (fieldnames # recs) \<Rightarrow>
          (if list_ex (\<lambda>r. length r \<noteq> length fieldnames) (filter (\<lambda>r. r \<noteq> []) recs)
           then Inl CsvError
           else Inr (map (\<lambda>r. dict_of (zip fieldnames (map PStr r)))
                      (filter (\<lambda>r. r \<noteq> []) recs))))"

definition project :: "pystr list \<Rightarrow> row \<Rightarrow> pyval list" where
  "project schema r = map (\<lambda>k. dict_get r k PNone) schema"

section \<open>The statements of the specification\<close>

text \<open>
  The canonical names of the registry, and the provider capabilities the registry
  binds when it is built (the others are reached from inside a \<open>lambda\<close>).
\<close>

definition field_names :: "pystr list" where
  "field_names =
     [u ''nome'', u ''primeiro_nome'', u ''sobrenome'', u ''email'', u ''usuario'',
      u ''senha'', u ''data_nascimento'', u ''cpf'', u ''cnpj'', u ''rg'', u ''telefone'',
      u ''celular'', u ''uuid'', u ''endereco'', u ''bairro'', u ''cidade'', u ''estado'',
      u ''cep'', u ''pais'', u ''empresa'', u ''cargo'', u ''cnpj_empresa'', u ''url'',
      u ''dominio'', u ''ip'', u ''preco'', u ''moeda'', u ''cartao_credito'', u ''data'',
      u ''hora'', u ''timestamp'', u ''frase'', u ''texto'']"

definition bound_names :: "pystr list" where
  "bound_names =
     [u ''name'', u ''first_name'', u ''last_name'', u ''email'', u ''user_name'',
      u ''password'', u ''uuid4'', u ''street_address'', u ''city'', u ''state'',
      u ''postcode'', u ''country'', u ''company'', u ''job'', u ''url'',
      u ''domain_name'', u ''ipv4'', u ''currency_code'', u ''credit_card_number'',
      u ''sentence'']"

text \<open>
  The row builder as section 4.2 of the specification words it, for one field name
  (already trimmed): the registry first, then a provider capability of that very name
  called with no arguments, then null.  (A lookup on the provider that fails otherwise
  than by the attribute being absent is outside the specification; it raises.)
\<close>

definition spec_field_value ::
  "'s faker \<Rightarrow> (pystr \<times> 's attr) list \<Rightarrow> pystr \<Rightarrow> 's \<Rightarrow> pyerr + (pyval \<times> 's)" where
  "spec_field_value fake registry f s =
     (case map_of registry f of
        Some generator \<Rightarrow> call generator [] s
      | None \<Rightarrow>
          (case fake f of
             Inr capability \<Rightarrow> call capability [] s
           | Inl AttributeError \<Rightarrow> Inr (PNone, s)
           | Inl e \<Rightarrow> Inl e))"

fun spec_build_row ::
  "'s faker \<Rightarrow> (pystr \<times> 's attr) list \<Rightarrow> pystr list \<Rightarrow> row \<Rightarrow> 's \<Rightarrow> pyerr + (row \<times> 's)" where
  "spec_build_row fake registry [] record s = Inr (record, s)"
| "spec_build_row fake registry (name # names) record s =
     (case spec_field_value fake registry (strip name) s of
        Inl e \<Rightarrow> Inl e
      | Inr (v, s') \<Rightarrow>
          spec_build_row fake registry names (AList.update (strip name) v record) s')"

text \<open>
  The values of the occurrences of a schema, each resolved on its own, from left to
  right, with no record in sight.
\<close>

fun field_values ::
  "'s faker \<Rightarrow> (pystr \<times> 's attr) list \<Rightarrow> pystr list \<Rightarrow> 's \<Rightarrow> pyerr + (pyval list \<times> 's)" where
  "field_values fake generators [] s = Inr ([], s)"
| "field_values fake generators (field # rest) s =
     (case field_value fake generators (strip field) s of
        Inl e \<Rightarrow> Inl e
      | Inr (v, s') \<Rightarrow>
          (case field_values fake generators rest s' of
             Inl e \<Rightarrow> Inl e
           | Inr (vs, s'') \<Rightarrow> Inr (v # vs, s'')))"

text \<open>The names of a schema in the order of their first occurrence.\<close>

definition key_order :: "pystr list \<Rightarrow> pystr list" where
  "key_order schema =
     foldl (\<lambda>seen k. if k \<in> set seen then seen else seen @ [k]) [] (map strip schema)"

text \<open>
  A line of CSV by the standard quoting rules: a field that holds a comma, a quote or a
  line break is enclosed in quotes, with its quotes doubled; fields are separated by
  commas and the line ends with \<open>\r\n\<close>.  (A line of one empty field is \<open>""\<close>, so that it
  is not an empty line.)
\<close>

definition needs_quotes :: "pystr \<Rightarrow> bool" where
  "needs_quotes t = list_ex (\<lambda>c. c = 44 \<or> c = 34 \<or> c = 13 \<or> c = 10) t"

definition double_quotes :: "pystr \<Rightarrow> pystr" where
  "double_quotes t = concat (map (\<lambda>c. if c = 34 then [34, 34] else [c]) t)"

definition csv_cell :: "pystr \<Rightarrow> pystr" where
  "csv_cell t = (if needs_quotes t then [34] @ double_quotes t @ [34] else t)"

definition csv_line :: "pystr list \<Rightarrow> pystr" where
  "csv_line ts = (if ts = [[]] then [34, 34] else join [44] (map csv_cell ts)) @ [13, 10]"

text \<open>The cell of a record in a column: null and a missing key are the empty text.\<close>

definition cell :: "row \<Rightarrow> pystr \<Rightarrow> pystr" where
  "cell r k = (case map_of r k of None \<Rightarrow> [] | Some PNone \<Rightarrow> [] | Some v \<Rightarrow> py_str v)"

text \<open>The encoding of null that the round trip through CSV is stated up to.\<close>

definition null_to_empty :: "pyval \<Rightarrow> pyval" where
  "null_to_empty v = (case v of PNone \<Rightarrow> PStr [] | _ \<Rightarrow> v)"

text \<open>
  The JSON text of a dataset, indented by two spaces: an array of objects, each with
  its members in the order of the record.
\<close>

definition json_serializable :: "pyval \<Rightarrow> bool" where
  "json_serializable v = (case v of PObj _ _ \<Rightarrow> False | _ \<Rightarrow> True)"

definition json_text :: "pyval \<Rightarrow> pystr" where
  "json_text v =
     (case v of
        PNone \<Rightarrow> u ''null''
      | PBool b \<Rightarrow> (if b then u ''true'' else u ''false'')
      | PInt i \<Rightarrow> int_str i
      | PFloat r \<Rightarrow> floatstr r
      | PStr s \<Rightarrow> encode_basestring s
      | PObj _ _ \<Rightarrow> [])"

definition json_member :: "pystr \<times> pyval \<Rightarrow> pystr" where
  "json_member kv = encode_basestring (fst kv) @ u '': '' @ json_text (snd kv)"

definition json_object :: "row \<Rightarrow> pystr" where
  "json_object r =
     (if r = [] then u ''{}''
      else [123, 10] @ u ''    '' @ join ([44, 10] @ u ''    '') (map json_member r) @
           [10] @ u ''  }'')"

definition json_array :: "row list \<Rightarrow> pystr" where
  "json_array rs =
     (if rs = [] then u ''[]''
      else [91, 10] @ u ''  '' @ join ([44, 10] @ u ''  '') (map json_object rs) @
           [10, 93])"

section \<open>A provider to run the program on\<close>

text \<open>
  A small provider in the shape of a locale without the Brazilian documents.  Its state
  is a pair: the counter that stands for the seeded random source, and the clock.  Each
  plain capability returns its own name followed by the counter, which it advances.
  \<open>date_time_between\<close> and \<open>date_of_birth\<close> return a moment counted back from the
  clock, as a date relative to \<open>"now"\<close> is.  \<open>date\<close> returns a string, as \<open>time\<close> does.
  There is no \<open>cpf\<close>, \<open>cnpj\<close>, \<open>rg\<close>, \<open>bairro\<close> or \<open>cellphone_number\<close>.
\<close>

definition demo_names :: "pystr list" where
  "demo_names =
     [u ''name'', u ''first_name'', u ''last_name'', u ''email'', u ''user_name'',
      u ''password'', u ''phone_number'', u ''uuid4'', u ''street_address'',
      u ''secondary_address'', u ''city'', u ''state'', u ''postcode'', u ''country'',
      u ''company'', u ''job'', u ''url'', u ''domain_name'', u ''ipv4'',
      u ''currency_code'', u ''credit_card_number'', u ''date'', u ''time'',
      u ''sentence'', u ''text'']"

definition demo_moment :: "nat \<times> nat \<Rightarrow> pyerr + (pyval \<times> (nat \<times> nat))" where
  "demo_moment s =
     (case s of (r, clock) \<Rightarrow>
        Inr (PObj (digits (clock - r mod 10)) (Some (digits (clock - r mod 10))),
             (r + 1, clock)))"

definition demo_fake :: "(nat \<times> nat) faker" where
  "demo_fake name =
     (if name \<in> set demo_names
      then Inr (Method (\<lambda>kw s. case s of (r, clock) \<Rightarrow>
             Inr (PStr (name @ digits r), (r + 1, clock))))
      else if name = u ''date_time_between'' \<or> name = u ''date_of_birth''
      then Inr (Method (\<lambda>kw s. demo_moment s))
      else if name = u ''pyfloat''
      then Inr (Method (\<lambda>kw s. case s of (r, clock) \<Rightarrow>
             Inr (PFloat (digits r @ u ''.5''), (r + 1, clock))))
      else Inl AttributeError)"

text \<open>A stand-in for \<open>float(f"{x:.2f}")\<close> on floats that already have two decimals.\<close>

definition demo_float_2f :: "pyval \<Rightarrow> pyerr + pyval" where
  "demo_float_2f v = (case v of PFloat r \<Rightarrow> Inr (PFloat r) | _ \<Rightarrow> Inl TypeError)"

text \<open>The registry \<open>get_field_generators\<close> builds for this provider.\<close>

definition demo_generators :: "(pystr \<times> (nat \<times> nat) attr) list" where
  "demo_generators =
     (case get_field_generators demo_float_2f demo_fake of Inr g \<Rightarrow> g | Inl e \<Rightarrow> [])"

text \<open>
  The surroundings of a run with this provider: \<open>Faker.seed\<close> sets the counter and
  cannot set the clock; every file opens and the standard output takes every line.
\<close>

definition demo_env :: "(nat \<times> nat) env" where
  "demo_env =
     \<lparr>Faker = (\<lambda>locale. Inr demo_fake),
      Faker_seed = (\<lambda>k s. (nat \<bar>k\<bar>, snd s)),
      float_2f = demo_float_2f,
      now_stamp = (\<lambda>s. digits (snd s)),
      open_w = (\<lambda>path. None),
      print_line = (\<lambda>line. None)\<rparr>"

section \<open>Basic facts\<close>

lemma u_eq_iff: "u a = u b \<longleftrightarrow> a = b"
  unfolding u_def by (simp add: inj_map_eq_map inj_of_char)

lemma u_append: "u a @ u b = u (a @ b)"
  by (simp add: u_def)

lemma digits_small:
  "digits 0 = u ''0''" "digits (Suc 0) = u ''1''" "digits (Suc (Suc 0)) = u ''2''"
  "digits (Suc (Suc (Suc 0))) = u ''3''" "digits (Suc (Suc (Suc (Suc 0)))) = u ''4''"
  by (simp_all add: digits.simps u_def)

lemma strip_examples:
  "strip (u ''nome'') = u ''nome''"
  "strip (u ''email'') = u ''email''"
  "strip (u '' email '') = u ''email''"
  "strip (u '' nome'') = u ''nome''"
  "strip (u '' city '') = u ''city''"
  "strip (u ''cpf'') = u ''cpf''"
  "strip (u ''preco'') = u ''preco''"
  "strip (u ''timestamp'') = u ''timestamp''"
  "strip (u ''campo_inexistente'') = u ''campo_inexistente''"
  "strip (u '' campo_inexistente'') = u ''campo_inexistente''"
  by (simp_all add: strip_def u_def isspace_def)

subsection \<open>The registry\<close>

lemma dict_literal_keys:
  "dict_literal xs = Inr d \<Longrightarrow> map fst d = map fst xs"
  by (induction xs arbitrary: d rule: dict_literal.induct) (auto split: sum.splits)

lemma dict_literal_map_of:
  "dict_literal xs = Inr d \<Longrightarrow>
     map_of d k = (case map_of xs k of Some (Inr v) \<Rightarrow> Some v | _ \<Rightarrow> None)"
  by (induction xs arbitrary: d rule: dict_literal.induct) (auto split: sum.splits)

lemma dict_literal_Inr_iff:
  "(\<exists>d. dict_literal xs = Inr d) \<longleftrightarrow> (\<forall>x \<in> set xs. \<exists>v. snd x = Inr v)"
  by (induction xs rule: dict_literal.induct) (auto split: sum.splits)

lemma dict_literal_values:
  "dict_literal xs = Inr d \<Longrightarrow> (k, a) \<in> set d \<Longrightarrow> (k, Inr a) \<in> set xs"
  by (induction xs arbitrary: d rule: dict_literal.induct) (auto split: sum.splits)

lemma registry_keys:
  "get_field_generators fl fake = Inr gens \<Longrightarrow> map fst gens = field_names"
  unfolding get_field_generators_def field_names_def
  by (drule dict_literal_keys) simp

lemma registry_total:
  "(\<exists>gens. get_field_generators fl fake = Inr gens) \<longleftrightarrow>
     ((\<forall>n \<in> set bound_names. \<exists>a. fake n = Inr a) \<and>
      (\<forall>e. fake (u ''bairro'') = Inl e \<longrightarrow> e = AttributeError))"
  unfolding get_field_generators_def dict_literal_Inr_iff bound_names_def
  by (auto simp add: getattr_default_def split: sum.splits pyerr.splits)

lemma lambda0_not_None: "\<not> is_None (lambda0 b)"
  by (simp add: is_None_def lambda0_def)

lemma registry_not_None:
  assumes g: "get_field_generators fl fake = Inr gens"
    and n: "\<forall>n \<in> set (u ''bairro'' # bound_names). fake n \<noteq> Inr (Data PNone)"
    and m: "map_of gens k = Some a"
  shows "\<not> is_None a"
proof
  assume "is_None a"
  then have a: "a = Data PNone"
    by (auto simp: is_None_def split: attr.splits pyval.splits)
  have "(k, a) \<in> set gens"
    using m by (rule map_of_SomeD)
  from dict_literal_values [OF g [unfolded get_field_generators_def] this]
  show False
    using n
    by (auto simp: a bound_names_def lambda0_def getattr_default_def
        split: sum.splits pyerr.splits)
qed


subsection \<open>The row builder\<close>

lemma field_value_spec:
  assumes "\<And>a. map_of gens f = Some a \<Longrightarrow> \<not> is_None a"
  shows "field_value fake gens f s = spec_field_value fake gens f s"
proof (cases "map_of gens f")
  case None
  then show ?thesis
    by (auto simp: field_value_def spec_field_value_def hasattr_def call_method_def
        split: sum.splits pyerr.splits)
next
  case (Some a)
  with assms have "\<not> is_None a" by simp
  with Some show ?thesis
    by (simp add: field_value_def spec_field_value_def)
qed

lemma build_row_loop_spec:
  assumes "\<And>f a. map_of gens f = Some a \<Longrightarrow> \<not> is_None a"
  shows "build_row_loop fake gens schema row s = spec_build_row fake gens schema row s"
  by (induction schema arbitrary: row s)
    (simp_all add: field_value_spec [OF assms] Let_def split: sum.splits prod.splits)

lemma build_row_loop_values:
  "build_row_loop fake gens schema row s =
     (case field_values fake gens schema s of
        Inl e \<Rightarrow> Inl e
      | Inr (vs, s') \<Rightarrow>
          Inr (foldl (\<lambda>d (k, v). AList.update k v d) row (zip (map strip schema) vs), s'))"
  by (induction schema arbitrary: row s) (simp_all add: Let_def split: sum.splits prod.splits)

lemma field_values_length:
  "field_values fake gens schema s = Inr (vs, s') \<Longrightarrow> length vs = length schema"
  by (induction schema arbitrary: s vs s') (auto split: sum.splits prod.splits)

lemma field_values_append:
  "field_values fake gens (xs @ ys) s =
     (case field_values fake gens xs s of
        Inl e \<Rightarrow> Inl e
      | Inr (vs, s') \<Rightarrow>
          (case field_values fake gens ys s' of
             Inl e \<Rightarrow> Inl e
           | Inr (ws, s'') \<Rightarrow> Inr (vs @ ws, s'')))"
  by (induction xs arbitrary: s) (simp_all split: sum.splits prod.splits)

lemma foldl_update_keys:
  "map fst (foldl (\<lambda>d (k, v). AList.update k v d) d0 ps) =
     foldl (\<lambda>seen k. if k \<in> set seen then seen else seen @ [k]) (map fst d0) (map fst ps)"
  by (induction ps arbitrary: d0) (auto simp: update_keys split: prod.splits)

lemma foldl_update_map_of:
  "map_of (foldl (\<lambda>d (k, v). AList.update k v d) d0 ps) = map_of d0 ++ map_of (rev ps)"
  by (induction ps arbitrary: d0) (auto simp: update_conv' split: prod.splits)

lemma foldl_seen_set:
  "set (foldl (\<lambda>seen k. if k \<in> set seen then seen else seen @ [k]) acc ks) =
     set acc \<union> set ks"
  by (induction ks arbitrary: acc) auto

lemma foldl_seen_distinct:
  "distinct acc \<Longrightarrow>
     distinct (foldl (\<lambda>seen k. if k \<in> set seen then seen else seen @ [k]) acc ks)"
  by (induction ks arbitrary: acc) auto

lemma build_row_values:
  assumes "build_row fl fake schema s = Inr (row, s')"
  obtains gens vs where "get_field_generators fl fake = Inr gens"
    and "field_values fake gens schema s = Inr (vs, s')"
    and "row = dict_of (zip (map strip schema) vs)"
  using assms
  by (auto simp: build_row_def build_row_loop_values dict_of_def split: sum.splits prod.splits)

lemma build_row_key_order:
  assumes "build_row fl fake schema s = Inr (row, s')"
  shows "map fst row = key_order schema"
proof -
  obtain gens vs where v: "field_values fake gens schema s = Inr (vs, s')"
    and r: "row = dict_of (zip (map strip schema) vs)"
    using assms by (rule build_row_values)
  have "length vs = length schema"
    using v by (rule field_values_length)
  then show ?thesis
    by (simp add: r dict_of_def foldl_update_keys key_order_def)
qed

lemma field_values_unknown:
  assumes "map_of gens f = None" and "fake f = Inl AttributeError"
  shows "field_value fake gens f s = Inr (PNone, s)"
  using assms by (simp add: field_value_def hasattr_def)

lemma field_values_unknown_zip:
  assumes "map_of gens f = None" and "fake f = Inl AttributeError"
    and "field_values fake gens schema s = Inr (vs, s')"
    and "(f, v) \<in> set (zip (map strip schema) vs)"
  shows "v = PNone"
  using assms(3,4)
proof (induction schema arbitrary: s vs)
  case Nil
  then show ?case by simp
next
  case (Cons x xs)
  have u: "\<And>t. field_value fake gens f t = Inr (PNone, t)"
    using assms(1,2) by (rule field_values_unknown)
  from Cons u [of s] show ?case
    by (auto split: sum.splits prod.splits)
qed

lemma map_of_rev_zip_unknown:
  assumes "\<And>v. (f, v) \<in> set ps \<Longrightarrow> v = PNone"
  shows "map_of (rev ps) f = None \<or> map_of (rev ps) f = Some PNone"
proof (cases "map_of (rev ps) f")
  case None
  then show ?thesis by simp
next
  case (Some v)
  then have "(f, v) \<in> set ps"
    using map_of_SomeD by fastforce
  with assms Some show ?thesis by simp
qed


subsection \<open>The dataset assembler\<close>

lemma rows_for_length:
  "rows_for mk xs s = Inr (rs, s') \<Longrightarrow> length rs = length xs"
  by (induction xs arbitrary: s rs s') (auto split: sum.splits prod.splits)

lemma rows_for_total:
  assumes "\<And>t. \<exists>r t'. mk t = Inr (r, t')"
  shows "\<exists>rs s'. rows_for mk xs s = Inr (rs, s')"
proof (induction xs arbitrary: s)
  case Nil
  show ?case by simp
next
  case (Cons x xs)
  obtain r t where a: "mk s = Inr (r, t)"
    using assms by blast
  obtain rs t' where b: "rows_for mk xs t = Inr (rs, t')"
    using Cons.IH by blast
  show ?case by (simp add: a b)
qed

lemma length_py_range: "length (py_range n) = nat n"
  by (simp add: py_range_def)

lemma py_range_nonpos: "n \<le> 0 \<Longrightarrow> py_range n = []"
  by (simp add: py_range_def)

lemma py_range_small: "py_range 1 = [0]" "py_range 2 = [0, 1]"
  by (simp_all add: py_range_def upto_rec1)

subsection \<open>The provider of the examples\<close>

lemma demo_generators_eq:
  "get_field_generators demo_float_2f demo_fake = Inr demo_generators"
proof -
  have "(\<forall>n \<in> set bound_names. \<exists>a. demo_fake n = Inr a) \<and>
      (\<forall>e. demo_fake (u ''bairro'') = Inl e \<longrightarrow> e = AttributeError)"
    by (simp add: bound_names_def demo_fake_def demo_names_def u_eq_iff)
  then have "\<exists>g. get_field_generators demo_float_2f demo_fake = Inr g"
    by (simp only: registry_total)
  then show ?thesis
    by (auto simp: demo_generators_def)
qed

lemmas demo_lookup =
  dict_literal_map_of [OF demo_generators_eq [unfolded get_field_generators_def]]

lemma demo_not_None:
  "\<forall>n \<in> set (u ''bairro'' # bound_names). demo_fake n \<noteq> Inr (Data PNone)"
  by (simp add: demo_fake_def)

lemma demo_field_plain:
  "field_value demo_fake demo_generators (u ''nome'') (r, c) =
     Inr (PStr (u ''name'' @ digits r), (r + 1, c))"
  "field_value demo_fake demo_generators (u ''email'') (r, c) =
     Inr (PStr (u ''email'' @ digits r), (r + 1, c))"
  "field_value demo_fake demo_generators (u ''city'') (r, c) =
     Inr (PStr (u ''city'' @ digits r), (r + 1, c))"
  "field_value demo_fake demo_generators (u ''celular'') (r, c) =
     Inr (PStr (u ''phone_number'' @ digits r), (r + 1, c))"
  by (simp_all add: field_value_def demo_lookup u_eq_iff is_None_def demo_fake_def
      demo_names_def call_def call_method_def hasattr_def lambda0_def)

lemma demo_field_other:
  "field_value demo_fake demo_generators (u ''cpf'') s = Inl AttributeError"
  "field_value demo_fake demo_generators (u ''campo_inexistente'') s = Inr (PNone, s)"
  "field_value demo_fake demo_generators (u ''timestamp'') (r, c) =
     Inr (PStr (digits (c - r mod 10)), (r + 1, c))"
  "field_value demo_fake demo_generators (u ''preco'') (r, c) =
     Inr (PFloat (digits r @ u ''.5''), (r + 1, c))"
  by (simp_all add: field_value_def demo_lookup u_eq_iff is_None_def demo_fake_def
      demo_names_def call_def call_method_def hasattr_def lambda0_def and_then_def
      isoformat_def demo_moment_def demo_float_2f_def)


lemma demo_build_row:
  "build_row demo_float_2f demo_fake schema s = build_row_loop demo_fake demo_generators schema [] s"
  by (simp add: build_row_def demo_generators_eq)

lemmas demo_row_eval =
  demo_build_row strip_examples demo_field_plain demo_field_other digits_small u_append
  u_eq_iff Let_def

lemma demo_rows:
  "build_dataset demo_float_2f demo_fake [u ''nome'', u '' email ''] 2 (0, 100) =
     Inr ([[(u ''nome'', PStr (u ''name0'')), (u ''email'', PStr (u ''email1''))],
           [(u ''nome'', PStr (u ''name2'')), (u ''email'', PStr (u ''email3''))]], (4, 100))"
  by (simp add: build_dataset_def py_range_small demo_row_eval)


subsection \<open>The CSV writer\<close>

lemma join_append_data_eq: "join_append_data t = (double_quotes t, needs_quotes t)"
  by (induction t) (auto simp: double_quotes_def needs_quotes_def)

lemma double_quotes_plain: "\<not> needs_quotes t \<Longrightarrow> double_quotes t = t"
  by (induction t) (auto simp: double_quotes_def needs_quotes_def)

lemma join_append_cell: "join_append t False = csv_cell t"
  by (simp add: join_append_def join_append_data_eq csv_cell_def double_quotes_plain)

lemma join_append_empty: "join_append [] True = [34, 34]"
  by (simp add: join_append_def)

lemma csv_cell_Nil_iff: "csv_cell t = [] \<longleftrightarrow> t = []"
  by (cases t) (simp_all add: csv_cell_def needs_quotes_def)

lemma join_Nil_iff: "sep \<noteq> [] \<Longrightarrow> join sep xs = [] \<longleftrightarrow> xs = [] \<or> xs = [[]]"
  by (induction sep xs rule: join.induct) auto

lemma writerow_line: "writerow vals = csv_line (map csv_text vals)"
proof -
  have "(vals \<noteq> [] \<and> join [44] (map csv_cell (map csv_text vals)) = []) \<longleftrightarrow>
      map csv_text vals = [[]]"
    by (auto simp: join_Nil_iff csv_cell_Nil_iff Cons_eq_map_conv map_eq_Cons_conv)
  then show ?thesis
    by (simp add: writerow_def csv_line_def join_append_cell join_append_empty o_def)
qed

lemma csv_text_get: "csv_text (dict_get r k (PStr [])) = cell r k"
  by (simp add: csv_text_def dict_get_def cell_def py_str_def split: option.splits pyval.splits)

lemma DictWriter_writerow_line:
  assumes "set (map fst r) \<subseteq> set fieldnames"
  shows "DictWriter_writerow fieldnames r = Inr (csv_line (map (cell r) fieldnames))"
proof -
  have "\<not> list_ex (\<lambda>k. k \<notin> set fieldnames) (map fst r)"
    using assms by (auto simp: list_ex_iff)
  then show ?thesis
    by (simp add: DictWriter_writerow_def dict_to_list_def writerow_line o_def csv_text_get)
qed

lemma foldl_update_keys_set:
  "fst ` set (foldl (\<lambda>d (k, v). AList.update k v d) d0 ps) = fst ` set d0 \<union> fst ` set ps"
proof (induction ps arbitrary: d0)
  case Nil
  show ?case by simp
next
  case (Cons p ps)
  show ?case
    by (cases p) (simp add: Cons.IH dom_update Un_assoc)
qed

lemma map_of_rev_zip_map:
  "map_of (rev (zip xs (map f xs))) k = (if k \<in> set xs then Some (f k) else None)"
proof -
  have "rev (zip xs (map f xs)) = zip (rev xs) (map f (rev xs))"
    by (simp add: zip_rev [symmetric] rev_map)
  then show ?thesis
    by (simp add: map_of_zip_map)
qed

lemma dict_of_keys: "fst ` set (dict_of ps) = fst ` set ps"
  by (simp add: dict_of_def foldl_update_keys_set)

lemma dict_of_zip_map:
  "map_of (dict_of (zip xs (map f xs))) k = (if k \<in> set xs then Some (f k) else None)"
  by (simp add: dict_of_def foldl_update_map_of map_of_rev_zip_map)

lemma writeheader_line: "writeheader fieldnames = Inr (csv_line fieldnames)"
proof -
  let ?h = "dict_of (zip fieldnames (map PStr fieldnames))"
  have k: "set (map fst ?h) \<subseteq> set fieldnames"
    using set_zip_leftD by (fastforce simp: dict_of_keys)
  have "map (cell ?h) fieldnames = fieldnames"
    by (rule map_idI) (simp add: cell_def dict_of_zip_map py_str_def)
  then show ?thesis
    using DictWriter_writerow_line [OF k] by (simp add: writeheader_def)
qed

lemma writerows_lines:
  assumes "\<forall>r \<in> set rows. set (map fst r) \<subseteq> set fieldnames"
  shows "writerows fieldnames rows =
     Inr (concat (map (\<lambda>r. csv_line (map (cell r) fieldnames)) rows))"
  using assms by (induction rows) (simp_all add: DictWriter_writerow_line)


lemma write_csv_lines:
  assumes "\<forall>r \<in> set rows. set (map fst r) \<subseteq> set schema"
  shows "write_csv schema rows =
       Inr (csv_line schema @ concat (map (\<lambda>r. csv_line (map (cell r) schema)) rows))"
  using assms by (simp add: write_csv_def writeheader_line writerows_lines)

subsection \<open>The JSON encoder\<close>

lemma json_value_text: "json_serializable v \<Longrightarrow> json_value v = Inr (json_text v)"
  by (cases v) (simp_all add: json_serializable_def json_value_def json_text_def)

lemma json_value_object: "\<not> json_serializable v \<Longrightarrow> json_value v = Inl TypeError"
  by (cases v) (simp_all add: json_serializable_def json_value_def)

lemma join_Cons: "xs \<noteq> [] \<Longrightarrow> join sep (x # xs) = x @ sep @ join sep xs"
  by (cases xs) simp_all

lemma iterencode_items_text:
  assumes "\<forall>v \<in> snd ` set r. json_serializable v"
  shows "iterencode_items sep first r =
     Inr (if r = [] then [] else (if first then [] else sep) @ join sep (map json_member r))"
  using assms
proof (induction r arbitrary: first)
  case Nil
  show ?case by simp
next
  case (Cons kv r)
  obtain k v where kv: "kv = (k, v)" by (cases kv)
  have v: "json_value v = Inr (json_text v)"
    using Cons.prems by (simp add: kv json_value_text)
  have r: "iterencode_items sep False r =
     Inr (if r = [] then [] else sep @ join sep (map json_member r))"
    using Cons.IH [of False] Cons.prems by simp
  show ?case
    by (simp add: kv v r json_member_def join_Cons)
qed

lemma newline_indent_small:
  "newline_indent 0 = [10]" "newline_indent (Suc 0) = [10] @ u ''  ''"
  "newline_indent (Suc (Suc 0)) = [10] @ u ''    ''"
  by (simp_all add: newline_indent_def u_def)

lemma iterencode_dict_text:
  assumes "\<forall>v \<in> snd ` set r. json_serializable v"
  shows "iterencode_dict r (Suc 0) = Inr (json_object r)"
  using assms
  by (simp add: iterencode_dict_def iterencode_items_text json_object_def newline_indent_small
      u_def)

lemma iterencode_elems_text:
  assumes "\<forall>r \<in> set rows. \<forall>v \<in> snd ` set r. json_serializable v"
  shows "iterencode_elems sep (Suc 0) first rows =
     Inr (if rows = [] then [] else (if first then [] else sep) @ join sep (map json_object rows))"
  using assms
proof (induction rows arbitrary: first)
  case Nil
  show ?case by simp
next
  case (Cons r rows)
  have d: "iterencode_dict r (Suc 0) = Inr (json_object r)"
    using Cons.prems by (simp add: iterencode_dict_text)
  have e: "iterencode_elems sep (Suc 0) False rows =
     Inr (if rows = [] then [] else sep @ join sep (map json_object rows))"
    using Cons.IH [of False] Cons.prems by simp
  show ?case
    by (simp add: d e join_Cons)
qed

lemma json_dump_text:
  assumes "\<forall>r \<in> set rows. \<forall>v \<in> snd ` set r. json_serializable v"
  shows "json_dump rows = Inr (json_array rows)"
  using assms
  by (simp add: json_dump_def iterencode_list_def iterencode_elems_text json_array_def
      newline_indent_small u_def)

lemma json_escape_plain: "32 \<le> c \<Longrightarrow> c \<noteq> 34 \<Longrightarrow> c \<noteq> 92 \<Longrightarrow> json_escape c = [c]"
  by (simp add: json_escape_def)

lemma encode_basestring_plain:
  assumes "\<forall>c \<in> set t. 32 \<le> c \<and> c \<noteq> 34 \<and> c \<noteq> 92"
  shows "encode_basestring t = [34] @ t @ [34]"
proof -
  have "concat (map json_escape t) = t"
    using assms by (induction t) (simp_all add: json_escape_plain)
  then show ?thesis
    by (simp add: encode_basestring_def)
qed


subsection \<open>Writing to the file\<close>

lemma utf8_encodable_simps [simp]:
  "utf8_encodable []"
  "utf8_encodable (c # t) = (\<not> is_surrogate c \<and> utf8_encodable t)"
  "utf8_encodable (a @ b) = (utf8_encodable a \<and> utf8_encodable b)"
  by (auto simp: utf8_encodable_def list_ex_iff)

lemma utf8_encodable_concat: "utf8_encodable (concat ts) = list_all utf8_encodable ts"
  by (induction ts) simp_all

lemma utf8_encodable_subset: "set a \<subseteq> set b \<Longrightarrow> utf8_encodable b \<Longrightarrow> utf8_encodable a"
  by (auto simp: utf8_encodable_def list_ex_iff)

lemma utf8_encodable_u [simp]: "utf8_encodable (u s)"
proof -
  have "\<not> is_surrogate (of_char c)" for c :: char
    unfolding is_surrogate_def using nat_of_char_less_256 [of c] by linarith
  then show ?thesis
    by (simp add: utf8_encodable_def list_ex_iff u_def)
qed

lemma utf8_encodable_digits [simp]: "utf8_encodable (digits n)"
proof (induction n rule: digits.induct)
  case (1 n)
  show ?case
  proof (cases "n < 10")
    case True
    then show ?thesis
      by (simp add: digits.simps [of n] is_surrogate_def)
  next
    case False
    then show ?thesis
      using 1 by (simp add: digits.simps [of n] is_surrogate_def)
  qed
qed

lemma utf8_encodable_int_str [simp]: "utf8_encodable (int_str i)"
  by (simp add: int_str_def is_surrogate_def)

lemma utf8_encodable_join:
  "utf8_encodable sep \<Longrightarrow> utf8_encodable (join sep xs) = list_all utf8_encodable xs"
  by (induction sep xs rule: join.induct) simp_all

lemma utf8_encodable_csv_cell: "utf8_encodable (csv_cell t) = utf8_encodable t"
proof -
  have "set (double_quotes t) = set t"
    by (induction t) (auto simp: double_quotes_def)
  then have "utf8_encodable (double_quotes t) = utf8_encodable t"
    by (simp add: utf8_encodable_def list_ex_iff)
  then show ?thesis
    by (simp add: csv_cell_def is_surrogate_def)
qed

lemma utf8_encodable_csv_line: "utf8_encodable (csv_line ts) = list_all utf8_encodable ts"
proof -
  have "list_all utf8_encodable (map csv_cell ts) = list_all utf8_encodable ts"
    by (induction ts) (simp_all add: utf8_encodable_csv_cell)
  then show ?thesis
    by (auto simp: csv_line_def utf8_encodable_join is_surrogate_def)
qed

lemma split_parts: "p \<in> set (split sep t) \<Longrightarrow> set p \<subseteq> set t"
proof (induction t arbitrary: p)
  case Nil
  then show ?case by simp
next
  case (Cons c cs)
  have ne: "split sep cs \<noteq> []"
    by (cases cs) (simp_all add: Let_def)
  show ?case
  proof (cases "c = sep")
    case True
    then show ?thesis
      using Cons by (auto simp: Let_def)
  next
    case False
    then have "p = c # hd (split sep cs) \<or> p \<in> set (tl (split sep cs))"
      using Cons.prems by (simp add: Let_def)
    then show ?thesis
    proof
      assume "p = c # hd (split sep cs)"
      then show ?thesis
        using Cons.IH [of "hd (split sep cs)"] ne by auto
    next
      assume "p \<in> set (tl (split sep cs))"
      then have "p \<in> set (split sep cs)"
        by (rule list.set_sel(2) [rotated]) (rule ne)
      then show ?thesis
        using Cons.IH [of p] by auto
    qed
  qed
qed

lemma strip_subset: "set (strip s) \<subseteq> set s"
proof -
  have "set (dropWhile isspace (rev (dropWhile isspace s))) \<subseteq> set (dropWhile isspace s)"
    using set_dropWhileD [of _ isspace "rev (dropWhile isspace s)"] by auto
  moreover have "set (dropWhile isspace s) \<subseteq> set s"
    using set_dropWhileD [of _ isspace s] by auto
  ultimately show ?thesis
    by (simp add: strip_def)
qed

lemma utf8_encodable_parse_schema:
  assumes "utf8_encodable content"
  shows "list_all utf8_encodable (parse_schema content)"
proof -
  have "utf8_encodable (strip p)" if "p \<in> set (split 44 content)" for p
  proof -
    have "set (strip p) \<subseteq> set content"
      using strip_subset [of p] split_parts [OF that] by simp
    then show ?thesis
      using assms by (rule utf8_encodable_subset)
  qed
  then show ?thesis
    by (simp add: parse_schema_def list_all_iff)
qed

lemma chunks_text_Cons:
  "chunks_text (x # cs) =
     (case x of
        Inl e \<Rightarrow> Inl e
      | Inr t \<Rightarrow> (case chunks_text cs of Inl e \<Rightarrow> Inl e | Inr r \<Rightarrow> Inr (t @ r)))"
  by (cases x) simp_all

lemma chunks_text_append:
  "chunks_text (a @ b) =
     (case chunks_text a of
        Inl e \<Rightarrow> Inl e
      | Inr t \<Rightarrow> (case chunks_text b of Inl e \<Rightarrow> Inl e | Inr r \<Rightarrow> Inr (t @ r)))"
  by (induction a rule: chunks_text.induct) (simp_all split: sum.splits)

lemma writerows_chunks:
  "writerows fieldnames rows = chunks_text (map (DictWriter_writerow fieldnames) rows)"
  by (induction rows) (simp_all add: chunks_text_Cons split: sum.splits)

lemma write_csv_chunks: "write_csv fieldnames rows = chunks_text (csv_chunks fieldnames rows)"
  by (cases "writeheader fieldnames")
    (simp_all add: write_csv_def csv_chunks_def writerows_chunks)

lemma iterencode_items_chunks:
  "iterencode_items sep first r = chunks_text (items_chunks sep first r)"
proof (induction r arbitrary: first)
  case Nil
  show ?case by simp
next
  case (Cons kv r)
  obtain k v where kv: "kv = (k, v)"
    by (cases kv)
  show ?case
    unfolding kv by (simp add: chunks_text_Cons Cons.IH [of False] split: sum.splits)
qed

lemma iterencode_dict_chunks: "iterencode_dict d level = chunks_text (dict_chunks d level)"
  by (simp add: iterencode_dict_def dict_chunks_def chunks_text_append iterencode_items_chunks
      split: sum.splits)

lemma iterencode_elems_chunks:
  "iterencode_elems sep level first ds = chunks_text (elems_chunks sep level first ds)"
proof (induction ds arbitrary: first)
  case Nil
  show ?case by simp
next
  case (Cons d ds)
  show ?case
    by (simp add: chunks_text_append iterencode_dict_chunks Cons.IH [of False]
        split: sum.splits)
qed

lemma json_dump_chunks: "json_dump rows = chunks_text (json_chunks rows)"
  by (simp add: json_dump_def json_chunks_def iterencode_list_def list_chunks_def
      chunks_text_append iterencode_elems_chunks split: sum.splits)

lemma write_chunks_text:
  "chunks_text cs = Inr t \<Longrightarrow>
   write_chunks cs f = (if utf8_encodable t then Inr (f @ t) else Inl UnicodeEncodeError)"
proof (induction cs arbitrary: t f)
  case Nil
  then show ?case by simp
next
  case (Cons x cs)
  from Cons.prems obtain a b where x: "x = Inr a" and b: "chunks_text cs = Inr b"
    and t: "t = a @ b"
    by (cases x; cases "chunks_text cs") simp_all
  show ?case
    unfolding x t by (simp add: Cons.IH [OF b])
qed

lemma write_chunks_Inr:
  "write_chunks cs f = Inr r \<Longrightarrow>
   \<exists>t. chunks_text cs = Inr t \<and> r = f @ t \<and> utf8_encodable t"
proof (induction cs arbitrary: f)
  case Nil
  then show ?case by simp
next
  case (Cons x cs)
  from Cons.prems obtain a where x: "x = Inr a" and a: "utf8_encodable a"
    and w: "write_chunks cs (f @ a) = Inr r"
    by (cases x) (simp_all split: if_splits)
  from Cons.IH [OF w] obtain b where "chunks_text cs = Inr b" "r = (f @ a) @ b"
    "utf8_encodable b"
    by (elim exE conjE)
  then show ?case
    unfolding x using a by simp
qed

lemma serialize_chunks:
  "serialize f schema rows =
     chunks_text (case f of Csv \<Rightarrow> csv_chunks schema rows | Json \<Rightarrow> json_chunks rows)"
  by (cases f) (simp_all add: serialize_def write_csv_chunks json_dump_chunks)

lemma write_file_text:
  assumes "serialize f schema rows = Inr t"
  shows "write_file f schema rows =
     (if utf8_encodable t then Inr t else Inl UnicodeEncodeError)"
  using write_chunks_text [of _ t "[]"] assms
  by (simp add: write_file_def serialize_chunks)

lemma write_file_Inr:
  assumes "write_file f schema rows = Inr t"
  shows "serialize f schema rows = Inr t \<and> utf8_encodable t"
  using write_chunks_Inr [of _ "[]" t] assms
  by (auto simp: write_file_def serialize_chunks)

lemma print_lines_all:
  "(\<And>l. pr l = None) \<Longrightarrow> print_lines pr ls = Inr (concat (map (\<lambda>l. l @ [10]) ls))"
  by (induction ls) simp_all


subsection \<open>The program\<close>

lemma build_dataset_nonpos:
  "n \<le> 0 \<Longrightarrow> build_dataset fl fake schema n s = Inr ([], s)"
  by (simp add: build_dataset_def py_range_nonpos)

lemma serialize_empty:
  "serialize Csv schema [] = Inr (csv_line schema)"
  "serialize Json schema [] = Inr (u ''[]'')"
  by (simp_all add: serialize_def write_csv_lines json_dump_def iterencode_list_def)

lemma parse_schema_examples:
  "parse_schema (u ''nome, email'') = [u ''nome'', u ''email'']"
  "parse_schema (u ''timestamp'') = [u ''timestamp'']"
  by (simp_all add: parse_schema_def u_def strip_def isspace_def)

lemma csv_line_examples:
  "csv_line [u ''nome'', u ''email''] = u ''nome,email'' @ [13, 10]"
  "csv_line [u ''nome'', u ''x''] = u ''nome,x'' @ [13, 10]"
  "csv_line [u ''timestamp''] = u ''timestamp'' @ [13, 10]"
  "csv_line [u ''98''] = u ''98'' @ [13, 10]"
  "csv_line [u ''198''] = u ''198'' @ [13, 10]"
  "csv_line [u ''Silva, Ana'', []] = [34] @ u ''Silva, Ana'' @ [34, 44, 13, 10]"
  by (simp_all add: csv_line_def csv_cell_def needs_quotes_def double_quotes_def u_def)

lemma digits_examples: "digits 98 = u ''98''" "digits 198 = u ''198''"
  by (simp_all add: digits.simps u_def)

lemma write_file_empty:
  "write_file Csv schema [] =
     (if list_all utf8_encodable schema then Inr (csv_line schema)
      else Inl UnicodeEncodeError)"
  "write_file Json schema [] = Inr (u ''[]'')"
  by (simp_all add: write_file_text [OF serialize_empty(1)]
      write_file_text [OF serialize_empty(2)] utf8_encodable_csv_line)

lemma main_nonpos:
  assumes "arg_rows args \<le> 0"
  shows "main env args s =
     (case Faker env (arg_locale args) of
        Inl e \<Rightarrow> Inl e
      | Inr fake \<Rightarrow>
          (let s1 = (case arg_seed args of None \<Rightarrow> s | Some k \<Rightarrow> Faker_seed env k s);
               schema = parse_schema (arg_schema args);
               path = (case arg_output args of
                         None \<Rightarrow>
                           u ''fake_data_'' @ arg_locale args @ u ''_'' @ now_stamp env s1 @
                           u ''.'' @ format_name (arg_format args)
                       | Some p \<Rightarrow> p)
           in case open_w env path of
                Some e \<Rightarrow> Inl e
              | None \<Rightarrow>
                  (case write_file (arg_format args) schema [] of
                     Inl e \<Rightarrow> Inl e
                   | Inr content \<Rightarrow>
                       (case print_lines (print_line env)
                               [u ''Arquivo gerado: '' @ path,
                                u ''Campos: '' @ join (u '', '') schema,
                                u ''Linhas: '' @ int_str 0] of
                          Inl e \<Rightarrow> Inl e
                        | Inr printed \<Rightarrow>
                            Inr (\<lparr>out_path = path, out_text = content,
                                  out_stdout = printed\<rparr>, s1)))))"
  using assms
  by (cases "Faker env (arg_locale args)")
    (simp_all add: main_def build_dataset_nonpos Let_def split: option.splits sum.splits)

lemma main_seeded_deterministic:
  assumes "arg_seed args = Some k" and "Faker_seed env k s1 = Faker_seed env k s2"
  shows "main env args s1 = main env args s2"
  using assms by (cases "Faker env (arg_locale args)") (simp_all add: main_def Let_def)

lemma demo_timestamp_run:
  "main demo_env
     \<lparr>arg_rows = 1, arg_locale = u ''pt_BR'', arg_format = Csv,
      arg_schema = u ''timestamp'', arg_output = Some (u ''out.csv''), arg_seed = Some 42\<rparr>
     (r, c) =
   Inr (\<lparr>out_path = u ''out.csv'',
         out_text = u ''timestamp'' @ [13, 10] @ csv_line [digits (c - 2)],
         out_stdout =
           u ''Arquivo gerado: out.csv'' @ [10] @ u ''Campos: timestamp'' @ [10] @
           u ''Linhas: 1'' @ [10]\<rparr>, (43, c))"
proof -
  have f: "write_file Csv [u ''timestamp'']
      [[(u ''timestamp'', PStr (digits (c - 2)))]] =
     Inr (u ''timestamp'' @ [13, 10] @ csv_line [digits (c - 2)])"
    by (simp add: write_file_text [of Csv _ _ "u ''timestamp'' @ [13, 10] @ csv_line [digits (c - 2)]"]
        serialize_def write_csv_lines csv_line_examples cell_def py_str_def
        utf8_encodable_csv_line is_surrogate_def)
  show ?thesis
    by (simp add: main_def demo_env_def parse_schema_examples build_dataset_def py_range_small
        demo_row_eval f int_str_def join.simps)
qed

text \<open>
  A field name that holds a lone surrogate: the header line cannot be encoded, and the
  run ends with \<open>UnicodeEncodeError\<close> at \<open>writeheader\<close>, whatever the row count.
\<close>

lemma parse_schema_surrogate:
  "parse_schema (u ''nome,'' @ [56575]) = [u ''nome'', [56575]]"
  by (simp add: parse_schema_def u_def strip_def isspace_def)

lemma main_surrogate_schema:
  "main demo_env
     \<lparr>arg_rows = -3, arg_locale = u ''pt_BR'', arg_format = Csv,
      arg_schema = u ''nome,'' @ [56575], arg_output = Some (u ''out.csv''),
      arg_seed = None\<rparr>
     (0, 100) = Inl UnicodeEncodeError"
  "main demo_env
     \<lparr>arg_rows = 0, arg_locale = u ''pt_BR'', arg_format = Csv,
      arg_schema = u ''nome,'' @ [56575], arg_output = Some (u ''out.csv''),
      arg_seed = None\<rparr>
     (0, 100) = Inl UnicodeEncodeError"
  by (simp_all add: main_nonpos demo_env_def parse_schema_surrogate write_file_empty
      is_surrogate_def Let_def)

lemma strip_idem: "strip (strip s) = strip s"
proof -
  let ?a = "dropWhile isspace s"
  let ?b = "rev (dropWhile isspace (rev ?a))"
  have a: "?a = ?b @ rev (takeWhile isspace (rev ?a))"
    using takeWhile_dropWhile_id [of isspace "rev ?a"]
    by (metis rev_append rev_rev_ident)
  have "dropWhile isspace ?b = ?b"
  proof (cases "?b = []")
    case True
    show ?thesis unfolding True by simp
  next
    case False
    then have "?a \<noteq> []"
      by (metis dropWhile.simps(1) rev.simps(1))
    then have "\<not> isspace (hd ?a)"
      by (rule hd_dropWhile)
    moreover have "hd ?a = hd ?b"
      using a False by (metis hd_append2)
    ultimately show ?thesis
      by (simp add: dropWhile_eq_self_iff)
  qed
  then show ?thesis
    by (simp add: strip_def)
qed

lemma parse_schema_stripped: "map strip (parse_schema t) = parse_schema t"
  by (simp add: parse_schema_def strip_idem)

lemma parse_schema_no_empty: "[] \<notin> set (parse_schema t)"
  by (auto simp: parse_schema_def)

lemma build_row_key_set:
  assumes "build_row fl fake schema s = Inr (row, s')"
  shows "set (map fst row) = set (map strip schema)"
  using build_row_key_order [OF assms]
  by (simp only: key_order_def foldl_seen_set) simp

lemma rows_for_all:
  assumes "\<And>t r t'. mk t = Inr (r, t') \<Longrightarrow> P r"
  shows "rows_for mk xs s = Inr (rs, s') \<Longrightarrow> \<forall>r \<in> set rs. P r"
proof (induction xs arbitrary: s rs)
  case Nil
  then show ?case by simp
next
  case (Cons x xs)
  then show ?case
    using assms by (auto split: sum.splits prod.splits)
qed

lemma build_dataset_keys:
  assumes "build_dataset fl fake schema n s = Inr (ds, s')"
  shows "\<forall>r \<in> set ds. set (map fst r) = set (map strip schema)"
  using assms unfolding build_dataset_def
  by (rule rows_for_all [rotated]) (rule build_row_key_set)

lemma build_dataset_parsed_keys:
  assumes "build_dataset fl fake (parse_schema t) n s = Inr (ds, s')"
  shows "\<forall>r \<in> set ds. set (map fst r) \<subseteq> set (parse_schema t)"
  using build_dataset_keys [OF assms] by (simp add: parse_schema_stripped)

lemma demo_rows_parsed:
  "build_dataset demo_float_2f demo_fake (parse_schema (u ''nome, email'')) 2 (0, 100) =
     Inr ([[(u ''nome'', PStr (u ''name0'')), (u ''email'', PStr (u ''email1''))],
           [(u ''nome'', PStr (u ''name2'')), (u ''email'', PStr (u ''email3''))]], (4, 100))"
  by (simp add: parse_schema_examples build_dataset_def py_range_small demo_row_eval)

subsection \<open>The CSV reader\<close>

lemma reader_start_record:
  "c \<noteq> 10 \<Longrightarrow> c \<noteq> 13 \<Longrightarrow>
     reader_run (START_RECORD, cur, fs) (c # cs) = reader_run (START_FIELD, cur, fs) (c # cs)"
  by simp

lemma reader_quoted_char:
  "c \<noteq> 34 \<Longrightarrow>
     reader_run (IN_QUOTED_FIELD, cur, fs) (c # cs) =
     reader_run (IN_QUOTED_FIELD, cur @ [c], fs) cs"
  by simp

lemma reader_quoted_quote:
  "reader_run (IN_QUOTED_FIELD, cur, fs) (34 # 34 # cs) =
     reader_run (IN_QUOTED_FIELD, cur @ [34], fs) cs"
  by (simp add: line_ends_def)

lemma reader_plain_char:
  "c \<noteq> 44 \<Longrightarrow> c \<noteq> 34 \<Longrightarrow> c \<noteq> 13 \<Longrightarrow> c \<noteq> 10 \<Longrightarrow> cs \<noteq> [] \<Longrightarrow>
     reader_run (IN_FIELD, cur, fs) (c # cs) = reader_run (IN_FIELD, cur @ [c], fs) cs"
  by (simp add: line_ends_def)

lemma reader_first_char:
  "c \<noteq> 44 \<Longrightarrow> c \<noteq> 34 \<Longrightarrow> c \<noteq> 13 \<Longrightarrow> c \<noteq> 10 \<Longrightarrow> cs \<noteq> [] \<Longrightarrow>
     reader_run (START_FIELD, [], fs) (c # cs) = reader_run (IN_FIELD, [c], fs) cs"
  by (simp add: line_ends_def start_field_def)

lemma reader_open_quote:
  "cs \<noteq> [] \<Longrightarrow>
     reader_run (START_FIELD, [], fs) (34 # cs) = reader_run (IN_QUOTED_FIELD, [], fs) cs"
  by (simp add: line_ends_def start_field_def)

lemma reader_empty_field:
  "cs \<noteq> [] \<Longrightarrow>
     reader_run (START_FIELD, [], fs) (44 # cs) = reader_run (START_FIELD, [], fs @ [[]]) cs"
  by (simp add: line_ends_def start_field_def)

lemma reader_delimiter:
  "cs \<noteq> [] \<Longrightarrow>
     reader_run (IN_FIELD, cur, fs) (44 # cs) = reader_run (START_FIELD, [], fs @ [cur]) cs"
  by (simp add: line_ends_def)

lemma reader_close_quote_delimiter:
  "cs \<noteq> [] \<Longrightarrow>
     reader_run (IN_QUOTED_FIELD, cur, fs) (34 # 44 # cs) =
     reader_run (START_FIELD, [], fs @ [cur]) cs"
  by (simp add: line_ends_def)

lemma reader_terminator:
  "reader_run (IN_FIELD, cur, fs) (13 # 10 # rest) =
     (case reader_run (START_RECORD, [], []) rest of
        Inl e \<Rightarrow> Inl e
      | Inr recs \<Rightarrow> Inr ((fs @ [cur]) # recs))"
  "reader_run (START_FIELD, [], fs) (13 # 10 # rest) =
     (case reader_run (START_RECORD, [], []) rest of
        Inl e \<Rightarrow> Inl e
      | Inr recs \<Rightarrow> Inr ((fs @ [[]]) # recs))"
  "reader_run (IN_QUOTED_FIELD, cur, fs) (34 # 13 # 10 # rest) =
     (case reader_run (START_RECORD, [], []) rest of
        Inl e \<Rightarrow> Inl e
      | Inr recs \<Rightarrow> Inr ((fs @ [cur]) # recs))"
  "reader_run (START_RECORD, [], []) (13 # 10 # rest) =
     (case reader_run (START_RECORD, [], []) rest of
        Inl e \<Rightarrow> Inl e
      | Inr recs \<Rightarrow> Inr ([] # recs))"
  by (simp_all add: line_ends_def start_field_def)

lemma reader_end: "reader_run (START_RECORD, [], []) [] = Inr []"
  by simp

declare reader_run.simps [simp del]

lemma double_quotes_Cons:
  "double_quotes (c # t) = (if c = 34 then [34, 34] else [c]) @ double_quotes t"
  by (simp add: double_quotes_def)

lemma reader_quoted_content:
  "reader_run (IN_QUOTED_FIELD, cur, fs) (double_quotes t @ rest) =
     reader_run (IN_QUOTED_FIELD, cur @ t, fs) rest"
proof (induction t arbitrary: cur)
  case Nil
  show ?case by (simp add: double_quotes_def)
next
  case (Cons c t)
  show ?case
    using Cons.IH [of "cur @ [c]"]
    by (cases "c = 34") (simp_all add: double_quotes_Cons reader_quoted_quote reader_quoted_char)
qed

lemma reader_plain_content:
  "\<not> needs_quotes t \<Longrightarrow> rest \<noteq> [] \<Longrightarrow>
     reader_run (IN_FIELD, cur, fs) (t @ rest) = reader_run (IN_FIELD, cur @ t, fs) rest"
proof (induction t arbitrary: cur)
  case Nil
  show ?case by simp
next
  case (Cons c t)
  have c: "c \<noteq> 44" "c \<noteq> 34" "c \<noteq> 13" "c \<noteq> 10" and t: "\<not> needs_quotes t"
    using Cons.prems(1) by (simp_all add: needs_quotes_def)
  show ?case
    using Cons.IH [OF t Cons.prems(2), of "cur @ [c]"] c Cons.prems(2)
    by (simp add: reader_plain_char)
qed

lemma reader_cell_delimiter:
  assumes "following \<noteq> []"
  shows "reader_run (START_FIELD, [], fs) (csv_cell t @ 44 # following) =
     reader_run (START_FIELD, [], fs @ [t]) following"
proof (cases "needs_quotes t")
  case True
  then show ?thesis
    using assms
    by (simp add: csv_cell_def reader_open_quote reader_quoted_content
        reader_close_quote_delimiter)
next
  case False
  show ?thesis
  proof (cases t)
    case Nil
    then show ?thesis
      using assms by (simp add: csv_cell_def needs_quotes_def reader_empty_field)
  next
    case (Cons c t')
    have c: "c \<noteq> 44" "c \<noteq> 34" "c \<noteq> 13" "c \<noteq> 10" and t: "\<not> needs_quotes t'"
      using False Cons by (simp_all add: needs_quotes_def)
    show ?thesis
      using False c assms reader_plain_content [OF t, of "44 # following" "[c]" fs]
      by (simp add: Cons csv_cell_def reader_first_char reader_delimiter)
  qed
qed

lemma reader_cell_terminator:
  "reader_run (START_FIELD, [], fs) (csv_cell t @ 13 # 10 # rest) =
     (case reader_run (START_RECORD, [], []) rest of
        Inl e \<Rightarrow> Inl e
      | Inr recs \<Rightarrow> Inr ((fs @ [t]) # recs))"
proof (cases "needs_quotes t")
  case True
  then show ?thesis
    by (simp add: csv_cell_def reader_open_quote reader_quoted_content reader_terminator split: sum.splits)
next
  case False
  show ?thesis
  proof (cases t)
    case Nil
    then show ?thesis
      by (simp add: csv_cell_def needs_quotes_def reader_terminator split: sum.splits)
  next
    case (Cons c t')
    have c: "c \<noteq> 44" "c \<noteq> 34" "c \<noteq> 13" "c \<noteq> 10" and t: "\<not> needs_quotes t'"
      using False Cons by (simp_all add: needs_quotes_def)
    show ?thesis
      using False c reader_plain_content [OF t, of "13 # 10 # rest" "[c]" fs]
      by (simp add: Cons csv_cell_def reader_first_char reader_terminator split: sum.splits)
  qed
qed

lemma reader_fields:
  "ts \<noteq> [] \<Longrightarrow>
     reader_run (START_FIELD, [], fs) (join [44] (map csv_cell ts) @ 13 # 10 # rest) =
     (case reader_run (START_RECORD, [], []) rest of
        Inl e \<Rightarrow> Inl e
      | Inr recs \<Rightarrow> Inr ((fs @ ts) # recs))"
proof (induction ts arbitrary: fs)
  case Nil
  then show ?case by simp
next
  case (Cons t ts)
  show ?case
  proof (cases ts)
    case Nil
    then show ?thesis
      by (simp add: reader_cell_terminator split: sum.splits)
  next
    case (Cons t2 ts2)
    have "join [44] (map csv_cell (t # ts)) @ 13 # 10 # rest =
        csv_cell t @ 44 # (join [44] (map csv_cell ts) @ 13 # 10 # rest)"
      by (simp add: Cons split: sum.splits)
    then show ?thesis
      using reader_cell_delimiter [of "join [44] (map csv_cell ts) @ 13 # 10 # rest" fs t]
        Cons.IH [of "fs @ [t]"] Cons
      by (simp split: sum.splits)
  qed
qed

lemma join_cells_first:
  assumes "ts \<noteq> []" and "ts \<noteq> [[]]"
  shows "\<exists>c cs. join [44] (map csv_cell ts) = c # cs \<and> c \<noteq> 10 \<and> c \<noteq> 13"
proof (cases ts)
  case Nil
  with assms show ?thesis by simp
next
  case (Cons t ts')
  show ?thesis
  proof (cases t)
    case Nil
    then obtain t2 ts2 where "ts' = t2 # ts2"
      using assms Cons by (cases ts') auto
    then show ?thesis
      by (simp add: Cons Nil csv_cell_def needs_quotes_def split: sum.splits)
  next
    case c: (Cons c t')
    show ?thesis
      by (cases ts') (auto simp: Cons c csv_cell_def needs_quotes_def)
  qed
qed

lemma reader_line:
  "reader_run (START_RECORD, [], []) (csv_line ts @ rest) =
     (case reader_run (START_RECORD, [], []) rest of
        Inl e \<Rightarrow> Inl e
      | Inr recs \<Rightarrow> Inr (ts # recs))"
proof -
  consider "ts = []" | "ts = [[]]" | "ts \<noteq> []" "ts \<noteq> [[]]"
    by blast
  then show ?thesis
  proof cases
    case 1
    then show ?thesis
      by (simp add: csv_line_def reader_terminator split: sum.splits)
  next
    case 2
    have "reader_run (START_RECORD, [], []) (34 # 34 # 13 # 10 # rest) =
        reader_run (IN_QUOTED_FIELD, [], []) (34 # 13 # 10 # rest)"
      by (simp add: reader_start_record reader_open_quote split: sum.splits)
    then show ?thesis
      by (simp add: 2 csv_line_def reader_terminator split: sum.splits)
  next
    case 3
    obtain c cs where j: "join [44] (map csv_cell ts) = c # cs" and c: "c \<noteq> 10" "c \<noteq> 13"
      using join_cells_first [OF 3] by blast
    have "reader_run (START_RECORD, [], []) (join [44] (map csv_cell ts) @ 13 # 10 # rest) =
        reader_run (START_FIELD, [], []) (join [44] (map csv_cell ts) @ 13 # 10 # rest)"
      using c by (simp add: j reader_start_record split: sum.splits)
    then show ?thesis
      using reader_fields [OF 3(1), of "[]" rest] 3 by (simp add: csv_line_def split: sum.splits)
  qed
qed

lemma csv_reader_lines: "csv_reader (concat (map csv_line rows)) = Inr rows"
  unfolding csv_reader_def
  by (induction rows) (simp_all add: reader_end reader_line)

lemma write_csv_as_lines:
  assumes "\<forall>r \<in> set rows. set (map fst r) \<subseteq> set schema"
  shows "write_csv schema rows =
     Inr (concat (map csv_line (schema # map (\<lambda>r. map (cell r) schema) rows)))"
  using assms by (simp add: write_csv_lines o_def)

lemma project_zip:
  "project schema (dict_of (zip schema (map (\<lambda>k. PStr (cell r k)) schema))) =
     map (\<lambda>k. PStr (cell r k)) schema"
  by (simp add: project_def dict_get_def dict_of_zip_map)

lemma read_records_lines:
  assumes "schema \<noteq> []"
    and "csv_reader content = Inr (schema # map (\<lambda>r. map (cell r) schema) rows)"
  shows "read_records content =
     Inr (map (\<lambda>r. dict_of (zip schema (map (\<lambda>k. PStr (cell r k)) schema))) rows)"
proof -
  have f: "filter (\<lambda>r. r \<noteq> []) (map (\<lambda>r. map (cell r) schema) rows) =
      map (\<lambda>r. map (cell r) schema) rows"
    using assms(1) by (simp add: filter_map o_def)
  have l: "\<not> list_ex (\<lambda>r. length r \<noteq> length schema) (map (\<lambda>r. map (cell r) schema) rows)"
    by (simp add: list_ex_iff)
  show ?thesis
    by (simp add: read_records_def assms(2) f l o_def)
qed

lemma cell_null_to_empty:
  assumes "map_of r k = Some v" and "v = PNone \<or> (\<exists>t. v = PStr t)"
  shows "PStr (cell r k) = null_to_empty (dict_get r k PNone)"
  using assms by (auto simp: cell_def null_to_empty_def dict_get_def py_str_def)

lemma csv_read_back:
  assumes "schema \<noteq> []" and "\<forall>r \<in> set rows. set (map fst r) \<subseteq> set schema"
  shows "\<exists>content recs. write_csv schema rows = Inr content \<and>
      csv_reader content = Inr (schema # map (\<lambda>r. map (cell r) schema) rows) \<and>
      read_records content = Inr recs \<and>
      map (project schema) recs = map (\<lambda>r. map (\<lambda>k. PStr (cell r k)) schema) rows"
proof -
  let ?text = "concat (map csv_line (schema # map (\<lambda>r. map (cell r) schema) rows))"
  let ?recs = "map (\<lambda>r. dict_of (zip schema (map (\<lambda>k. PStr (cell r k)) schema))) rows"
  have w: "write_csv schema rows = Inr ?text"
    using assms(2) by (rule write_csv_as_lines)
  have c: "csv_reader ?text = Inr (schema # map (\<lambda>r. map (cell r) schema) rows)"
    by (rule csv_reader_lines)
  have r: "read_records ?text = Inr ?recs"
    using assms(1) c by (rule read_records_lines)
  have p: "map (project schema) ?recs = map (\<lambda>r. map (\<lambda>k. PStr (cell r k)) schema) rows"
    by (simp add: o_def project_zip)
  show ?thesis
    by (intro exI conjI) (rule w c r p)+
qed

lemma project_null_to_empty:
  assumes "\<forall>k \<in> set schema.
      \<exists>v. map_of r k = Some v \<and> (v = PNone \<or> (\<exists>t. v = PStr t))"
  shows "map (\<lambda>k. PStr (cell r k)) schema = map null_to_empty (project schema r)"
proof -
  have "PStr (cell r k) = null_to_empty (dict_get r k PNone)" if "k \<in> set schema" for k
  proof -
    have "\<exists>v. map_of r k = Some v \<and> (v = PNone \<or> (\<exists>t. v = PStr t))"
      using assms that by (rule bspec)
    then obtain v where "map_of r k = Some v" and "v = PNone \<or> (\<exists>t. v = PStr t)"
      by (elim exE conjE)
    then show ?thesis
      by (rule cell_null_to_empty)
  qed
  then have "\<forall>k \<in> set schema. PStr (cell r k) = null_to_empty (dict_get r k PNone)"
    by (intro ballI)
  then show ?thesis
    unfolding project_def map_map o_def by (simp only: map_eq_conv)
qed

lemma csv_line_examples2:
  "csv_line [u ''preco''] = u ''preco'' @ [13, 10]"
  "csv_line [u ''1.5''] = u ''1.5'' @ [13, 10]"
  by (simp_all add: csv_line_def csv_cell_def needs_quotes_def double_quotes_def u_def)
section \<open>The claims\<close>

text \<open>
  C1.  When the assembler returns a dataset for a count \<open>n \<ge> 0\<close>, the dataset has
  exactly \<open>n\<close> records; it returns one whenever the row builder does not raise on
  the schema; and for a count of 0 it returns the empty dataset and leaves the provider
  untouched, whatever the provider and the schema are.
\<close>

theorem build_dataset_length:
  "(0 \<le> n \<longrightarrow> build_dataset fl fake schema n s = Inr (dataset, s') \<longrightarrow>
      int (length dataset) = n) \<and>
   ((\<forall>t. \<exists>r t'. build_row fl fake schema t = Inr (r, t')) \<longrightarrow>
      (\<exists>ds t'. build_dataset fl fake schema n s = Inr (ds, t'))) \<and>
   build_dataset fl fake schema 0 s = Inr ([], s)"
proof (intro conjI impI)
  assume "0 \<le> n" and "build_dataset fl fake schema n s = Inr (dataset, s')"
  then show "int (length dataset) = n"
    using rows_for_length [of "build_row fl fake schema" "py_range n" s dataset s']
    by (simp add: build_dataset_def length_py_range)
next
  assume "\<forall>t. \<exists>r t'. build_row fl fake schema t = Inr (r, t')"
  then show "\<exists>ds t'. build_dataset fl fake schema n s = Inr (ds, t')"
    unfolding build_dataset_def by (intro rows_for_total) blast
next
  show "build_dataset fl fake schema 0 s = Inr ([], s)"
    by (simp add: build_dataset_def py_range_def)
qed

theorem build_dataset_length_witness:
  "(0::int) \<le> 2 \<and>
   build_dataset demo_float_2f demo_fake [u ''nome'', u '' email ''] 2 (0, 100) =
     Inr ([[(u ''nome'', PStr (u ''name0'')), (u ''email'', PStr (u ''email1''))],
           [(u ''nome'', PStr (u ''name2'')), (u ''email'', PStr (u ''email3''))]], (4, 100)) \<and>
   int (length
     [[(u ''nome'', PStr (u ''name0'')), (u ''email'', PStr (u ''email1''))],
      [(u ''nome'', PStr (u ''name2'')), (u ''email'', PStr (u ''email3''))]]) = 2 \<and>
   build_dataset demo_float_2f demo_fake [u ''nome'', u '' email ''] 0 (0, 100) =
     Inr ([], (0, 100))"
  using build_dataset_length [of 2 demo_float_2f demo_fake "[u ''nome'', u '' email '']"
      "(0, 100)" _ "(4, 100)"] demo_rows
  by simp

text \<open>
  C2.  Whenever the registry can be built and none of the provider attributes it binds
  is \<open>None\<close> (the code tests \<open>gen is None\<close>, not whether the name is in the registry),
  \<open>build_row\<close> is the row builder of the specification: for each name of the schema,
  trimmed, the registry's generator if the registry has the name, else the provider's
  capability of that name called with no arguments if there is one, else null; the
  value is stored under the trimmed name.
\<close>

theorem build_row_refines_spec:
  assumes "get_field_generators fl fake = Inr registry"
    and "\<forall>n \<in> set (u ''bairro'' # bound_names). fake n \<noteq> Inr (Data PNone)"
  shows "build_row fl fake schema s = spec_build_row fake registry schema [] s"
proof -
  have "\<And>f a. map_of registry f = Some a \<Longrightarrow> \<not> is_None a"
    using assms by (rule registry_not_None)
  then have "build_row_loop fake registry schema [] s = spec_build_row fake registry schema [] s"
    by (rule build_row_loop_spec)
  then show ?thesis
    by (simp add: build_row_def assms(1))
qed

theorem build_row_refines_spec_witness:
  "get_field_generators demo_float_2f demo_fake = Inr demo_generators \<and>
   build_row demo_float_2f demo_fake [u ''nome'', u '' city '', u ''campo_inexistente'']
     (0, 100) =
     Inr ([(u ''nome'', PStr (u ''name0'')), (u ''city'', PStr (u ''city1'')),
           (u ''campo_inexistente'', PNone)], (2, 100)) \<and>
   spec_build_row demo_fake demo_generators
     [u ''nome'', u '' city '', u ''campo_inexistente''] [] (0, 100) =
     Inr ([(u ''nome'', PStr (u ''name0'')), (u ''city'', PStr (u ''city1'')),
           (u ''campo_inexistente'', PNone)], (2, 100))"
proof -
  have e: "build_row demo_float_2f demo_fake
      [u ''nome'', u '' city '', u ''campo_inexistente''] (0, 100) =
     Inr ([(u ''nome'', PStr (u ''name0'')), (u ''city'', PStr (u ''city1'')),
           (u ''campo_inexistente'', PNone)], (2, 100))"
    by (simp add: demo_row_eval)
  show ?thesis
    using build_row_refines_spec [OF demo_generators_eq demo_not_None,
        of "[u ''nome'', u '' city '', u ''campo_inexistente'']" "(0, 100)"] e
    by (simp add: demo_generators_eq)
qed

text \<open>
  C3.  The keys of a record \<open>build_row\<close> returns are the trimmed names of the schema,
  each once.  Every occurrence of a name is resolved on its own, in schema order, and
  the record holds for each name the value of its last occurrence.
\<close>

theorem build_row_keys:
  assumes "build_row fl fake schema s = Inr (row, s')"
  shows "set (map fst row) = set (map strip schema) \<and> distinct (map fst row) \<and>
    (\<exists>gens vs. get_field_generators fl fake = Inr gens \<and>
       field_values fake gens schema s = Inr (vs, s') \<and> length vs = length schema \<and>
       map_of row = map_of (rev (zip (map strip schema) vs)))"
proof -
  obtain gens vs where g: "get_field_generators fl fake = Inr gens"
    and v: "field_values fake gens schema s = Inr (vs, s')"
    and r: "row = dict_of (zip (map strip schema) vs)"
    using assms by (rule build_row_values)
  have k: "map fst row = key_order schema"
    using assms by (rule build_row_key_order)
  have l: "length vs = length schema"
    using v by (rule field_values_length)
  have "set (map fst row) = set (map strip schema)"
    unfolding k key_order_def by (simp add: foldl_seen_set)
  moreover have "distinct (map fst row)"
    unfolding k key_order_def by (rule foldl_seen_distinct) simp
  moreover have "map_of row = map_of (rev (zip (map strip schema) vs))"
    by (simp add: r dict_of_def foldl_update_map_of)
  ultimately show ?thesis
    using g v l by blast
qed


theorem build_row_keys_witness:
  "build_row demo_float_2f demo_fake [u ''nome'', u ''email'', u '' nome''] (0, 100) =
     Inr ([(u ''nome'', PStr (u ''name2'')), (u ''email'', PStr (u ''email1''))], (3, 100)) \<and>
   set (map fst [(u ''nome'', PStr (u ''name2'')), (u ''email'', PStr (u ''email1''))]) =
     set (map strip [u ''nome'', u ''email'', u '' nome'']) \<and>
   distinct (map fst [(u ''nome'', PStr (u ''name2'')), (u ''email'', PStr (u ''email1''))])"
proof -
  have e: "build_row demo_float_2f demo_fake [u ''nome'', u ''email'', u '' nome''] (0, 100) =
     Inr ([(u ''nome'', PStr (u ''name2'')), (u ''email'', PStr (u ''email1''))], (3, 100))"
    by (simp add: demo_row_eval)
  show ?thesis
    using build_row_keys [OF e] e by blast
qed

text \<open>
  C4.  A field whose trimmed name is no canonical name of the registry and no attribute
  of the provider resolves to null and leaves the provider untouched.  It never adds
  an error: with the field in the schema the row builder raises exactly when it does
  without it, and otherwise the record differs only by the null stored under that
  name.  (The registry must have been built: \<open>build_row\<close> builds it before it looks at
  any field.)
\<close>

theorem unknown_field_is_null:
  assumes g: "get_field_generators fl fake = Inr gens"
    and n: "strip f \<notin> set field_names"
    and a: "fake (strip f) = Inl AttributeError"
  shows "build_row fl fake [f] s = Inr ([(strip f, PNone)], s) \<and>
    (\<forall>e. build_row fl fake (pre @ f # post) s = Inl e \<longleftrightarrow>
         build_row fl fake (pre @ post) s = Inl e) \<and>
    (\<forall>row s'. build_row fl fake (pre @ f # post) s = Inr (row, s') \<longrightarrow>
       map_of row (strip f) = Some PNone \<and>
       (\<exists>row0. build_row fl fake (pre @ post) s = Inr (row0, s') \<and>
          (\<forall>k. k \<noteq> strip f \<longrightarrow> map_of row k = map_of row0 k)))"
proof -
  have m: "map_of gens (strip f) = None"
    using registry_keys [OF g] n by (metis map_of_eq_None_iff set_map)
  have u: "\<And>t. field_value fake gens (strip f) t = Inr (PNone, t)"
    using m a by (rule field_values_unknown)
  have one: "build_row fl fake [f] s = Inr ([(strip f, PNone)], s)"
    by (simp add: build_row_def g u)
  have fv: "field_values fake gens (pre @ f # post) s =
      (case field_values fake gens pre s of
         Inl e \<Rightarrow> Inl e
       | Inr (vs, s1) \<Rightarrow>
           (case field_values fake gens post s1 of
              Inl e \<Rightarrow> Inl e
            | Inr (ws, s2) \<Rightarrow> Inr (vs @ PNone # ws, s2)))"
    by (simp add: field_values_append u split: sum.splits prod.splits)
  have fv0: "field_values fake gens (pre @ post) s =
      (case field_values fake gens pre s of
         Inl e \<Rightarrow> Inl e
       | Inr (vs, s1) \<Rightarrow>
           (case field_values fake gens post s1 of
              Inl e \<Rightarrow> Inl e
            | Inr (ws, s2) \<Rightarrow> Inr (vs @ ws, s2)))"
    by (simp add: field_values_append)
  have err: "\<forall>e. build_row fl fake (pre @ f # post) s = Inl e \<longleftrightarrow>
         build_row fl fake (pre @ post) s = Inl e"
    by (auto simp: build_row_def g build_row_loop_values fv fv0 split: sum.splits prod.splits)
  have ok: "map_of row (strip f) = Some PNone \<and>
       (\<exists>row0. build_row fl fake (pre @ post) s = Inr (row0, s') \<and>
          (\<forall>k. k \<noteq> strip f \<longrightarrow> map_of row k = map_of row0 k))"
    if r: "build_row fl fake (pre @ f # post) s = Inr (row, s')" for row s'
  proof -
    from r obtain vs s1 ws where p: "field_values fake gens pre s = Inr (vs, s1)"
      and q: "field_values fake gens post s1 = Inr (ws, s')"
      and row: "row = dict_of (zip (map strip (pre @ f # post)) (vs @ PNone # ws))"
      by (auto simp: build_row_def g build_row_loop_values fv dict_of_def
          split: sum.splits prod.splits)
    have lp: "length vs = length pre"
      using p by (rule field_values_length)
    have z: "zip (map strip pre @ strip f # map strip post) (vs @ PNone # ws) =
        zip (map strip pre) vs @ (strip f, PNone) # zip (map strip post) ws"
      using lp by simp
    have z0: "zip (map strip pre @ map strip post) (vs @ ws) =
        zip (map strip pre) vs @ zip (map strip post) ws"
      using lp by simp
    have row0: "build_row fl fake (pre @ post) s =
        Inr (dict_of (zip (map strip (pre @ post)) (vs @ ws)), s')"
      by (simp add: build_row_def g build_row_loop_values fv0 p q dict_of_def)
    have later: "map_of (rev (zip (map strip post) ws)) (strip f) = None \<or>
        map_of (rev (zip (map strip post) ws)) (strip f) = Some PNone"
      by (rule map_of_rev_zip_unknown) (rule field_values_unknown_zip [OF m a q])
    have here: "map_of row (strip f) = Some PNone"
      using later unfolding row dict_of_def foldl_update_map_of
      by (auto simp: z map_add_def split: option.splits)
    have rest: "\<forall>k. k \<noteq> strip f \<longrightarrow>
        map_of row k = map_of (dict_of (zip (map strip (pre @ post)) (vs @ ws))) k"
      unfolding row dict_of_def foldl_update_map_of
      by (auto simp: z z0 map_add_def split: option.splits)
    show ?thesis
      using here rest row0 by blast
  qed
  show ?thesis
    using one err ok by blast
qed


theorem unknown_field_is_null_witness:
  "get_field_generators demo_float_2f demo_fake = Inr demo_generators \<and>
   strip (u '' campo_inexistente'') \<notin> set field_names \<and>
   demo_fake (strip (u '' campo_inexistente'')) = Inl AttributeError \<and>
   build_row demo_float_2f demo_fake [u '' campo_inexistente''] (0, 100) =
     Inr ([(u ''campo_inexistente'', PNone)], (0, 100)) \<and>
   build_row demo_float_2f demo_fake [u ''nome'', u '' campo_inexistente'', u ''email'']
     (0, 100) =
     Inr ([(u ''nome'', PStr (u ''name0'')), (u ''campo_inexistente'', PNone),
           (u ''email'', PStr (u ''email1''))], (2, 100))"
proof -
  have n: "strip (u '' campo_inexistente'') \<notin> set field_names"
    by (simp add: strip_examples field_names_def u_eq_iff)
  have a: "demo_fake (strip (u '' campo_inexistente'')) = Inl AttributeError"
    by (simp add: strip_examples demo_fake_def demo_names_def u_eq_iff)
  have e: "build_row demo_float_2f demo_fake
      [u ''nome'', u '' campo_inexistente'', u ''email''] (0, 100) =
     Inr ([(u ''nome'', PStr (u ''name0'')), (u ''campo_inexistente'', PNone),
           (u ''email'', PStr (u ''email1''))], (2, 100))"
    by (simp add: demo_row_eval)
  show ?thesis
    using unknown_field_is_null [OF demo_generators_eq n a, of "(0, 100)" "[]" "[]"] n a e
    by (simp add: demo_generators_eq strip_examples)
qed

text \<open>
  C5, as the code has it.  The registry can be built exactly when the provider has the
  twenty capabilities the registry binds directly and looking \<open>bairro\<close> up does not
  fail otherwise than by its absence.  The registry then holds the same thirty-three
  canonical names whatever the provider offers: the entry of \<open>cpf\<close> is there and
  calls the provider's \<open>cpf\<close> when it is invoked, whether the provider has it or not.
  Only \<open>celular\<close> and \<open>bairro\<close> fall back, to \<open>phone_number\<close> and to
  \<open>secondary_address\<close>.
\<close>

theorem registry_fixed_names:
  "(((\<forall>n \<in> set bound_names. \<exists>a. fake n = Inr a) \<and>
     (\<forall>e. fake (u ''bairro'') = Inl e \<longrightarrow> e = AttributeError)) \<longleftrightarrow>
    (\<exists>registry. get_field_generators fl fake = Inr registry)) \<and>
   (get_field_generators fl fake = Inr gens \<longrightarrow>
      map fst gens = field_names \<and>
      (\<exists>g. map_of gens (u ''cpf'') = Some g \<and>
           call g [] s = call_method fake (u ''cpf'') [] s) \<and>
      (fake (u ''cellphone_number'') = Inl AttributeError \<longrightarrow>
         (\<exists>g. map_of gens (u ''celular'') = Some g \<and>
              call g [] s = call_method fake (u ''phone_number'') [] s)) \<and>
      (fake (u ''bairro'') = Inl AttributeError \<longrightarrow>
         (\<exists>g. map_of gens (u ''bairro'') = Some g \<and>
              call g [] s = call_method fake (u ''secondary_address'') [] s)))"
proof (intro conjI impI)
  show "((\<forall>n \<in> set bound_names. \<exists>a. fake n = Inr a) \<and>
     (\<forall>e. fake (u ''bairro'') = Inl e \<longrightarrow> e = AttributeError)) \<longleftrightarrow>
    (\<exists>registry. get_field_generators fl fake = Inr registry)"
    by (simp only: registry_total)
next
  assume g: "get_field_generators fl fake = Inr gens"
  then show "map fst gens = field_names"
    by (rule registry_keys)
  note look = dict_literal_map_of [OF g [unfolded get_field_generators_def]]
  show "\<exists>g. map_of gens (u ''cpf'') = Some g \<and>
           call g [] s = call_method fake (u ''cpf'') [] s"
    by (simp add: look u_eq_iff call_def lambda0_def)
  show "\<exists>g. map_of gens (u ''celular'') = Some g \<and>
              call g [] s = call_method fake (u ''phone_number'') [] s"
    if "fake (u ''cellphone_number'') = Inl AttributeError"
    using that by (simp add: look u_eq_iff call_def lambda0_def hasattr_def)
  show "\<exists>g. map_of gens (u ''bairro'') = Some g \<and>
              call g [] s = call_method fake (u ''secondary_address'') [] s"
    if "fake (u ''bairro'') = Inl AttributeError"
    using that g
    by (simp add: look u_eq_iff call_def lambda0_def getattr_default_def)
qed


theorem registry_fixed_names_witness:
  "get_field_generators demo_float_2f demo_fake = Inr demo_generators \<and>
   map fst demo_generators = field_names \<and>
   demo_fake (u ''cellphone_number'') = Inl AttributeError \<and>
   (\<exists>g. map_of demo_generators (u ''celular'') = Some g \<and>
        call g [] (0, 100) = call_method demo_fake (u ''phone_number'') [] (0, 100))"
proof -
  have a: "demo_fake (u ''cellphone_number'') = Inl AttributeError"
    by (simp add: demo_fake_def demo_names_def u_eq_iff)
  show ?thesis
    using registry_fixed_names [of demo_fake demo_float_2f demo_generators "(0, 100)"]
      demo_generators_eq a
    by blast
qed

text \<open>
  The claim as it is worded fails on a provider without \<open>cpf\<close>: the name is in the
  registry all the same, the row builder does not reach its fallback, and invoking the
  generator raises.
\<close>

theorem registry_keeps_unresolvable_name:
  "get_field_generators demo_float_2f demo_fake = Inr demo_generators \<and>
   demo_fake (u ''cpf'') = Inl AttributeError \<and>
   u ''cpf'' \<in> set (map fst demo_generators) \<and>
   build_row demo_float_2f demo_fake [u ''cpf''] (0, 100) = Inl AttributeError"
proof -
  have "map fst demo_generators = field_names"
    using demo_generators_eq by (rule registry_keys)
  then have "u ''cpf'' \<in> set (map fst demo_generators)"
    by (simp add: field_names_def u_eq_iff)
  moreover have "demo_fake (u ''cpf'') = Inl AttributeError"
    by (simp add: demo_fake_def demo_names_def u_eq_iff)
  moreover have "build_row demo_float_2f demo_fake [u ''cpf''] (0, 100) = Inl AttributeError"
    by (simp add: demo_row_eval)
  ultimately show ?thesis
    using demo_generators_eq by simp
qed

text \<open>
  C6.  For a schema and a dataset whose records have no key outside the schema, the CSV
  writer emits the header line, which is the schema in order, then one line per
  record, in order, with the record's cells in schema order, by the standard quoting
  rules.  A null value is written as the empty field.  Every dataset the program
  builds from the schema it parsed is such a dataset, so the writer never refuses one.
\<close>

theorem write_csv_layout:
  assumes "\<forall>r \<in> set rows. set (map fst r) \<subseteq> set schema"
  shows "write_csv schema rows =
       Inr (csv_line schema @ concat (map (\<lambda>r. csv_line (map (cell r) schema)) rows)) \<and>
     (\<forall>r k. map_of r k = Some PNone \<longrightarrow> cell r k = []) \<and>
     (build_dataset fl fake (parse_schema t) n s = Inr (ds, s') \<longrightarrow>
        (\<forall>r \<in> set ds. set (map fst r) \<subseteq> set (parse_schema t)))"
  using assms build_dataset_parsed_keys [of fl fake t n s ds s']
  by (simp add: write_csv_lines cell_def)

theorem write_csv_layout_witness:
  "set (map fst [(u ''nome'', PStr (u ''Silva, Ana'')), (u ''x'', PNone)]) \<subseteq>
     set [u ''nome'', u ''x''] \<and>
   write_csv [u ''nome'', u ''x''] [[(u ''nome'', PStr (u ''Silva, Ana'')), (u ''x'', PNone)]] =
     Inr (u ''nome,x'' @ [13, 10] @ [34] @ u ''Silva, Ana'' @ [34, 44, 13, 10]) \<and>
   cell [(u ''nome'', PStr (u ''Silva, Ana'')), (u ''x'', PNone)] (u ''x'') = [] \<and>
   build_dataset demo_float_2f demo_fake (parse_schema (u ''nome, email'')) 2 (0, 100) =
     Inr ([[(u ''nome'', PStr (u ''name0'')), (u ''email'', PStr (u ''email1''))],
           [(u ''nome'', PStr (u ''name2'')), (u ''email'', PStr (u ''email3''))]], (4, 100)) \<and>
   set (map fst [(u ''nome'', PStr (u ''name0'')), (u ''email'', PStr (u ''email1''))]) \<subseteq>
     set (parse_schema (u ''nome, email''))"
  using write_csv_layout [where rows = "[[(u ''nome'', PStr (u ''Silva, Ana'')), (u ''x'', PNone)]]"
      and schema = "[u ''nome'', u ''x'']" and fl = demo_float_2f and fake = demo_fake
      and t = "u ''nome, email''" and n = 2 and s = "(0, 100)" and s' = "(4, 100)"
      and ds = "[[(u ''nome'', PStr (u ''name0'')), (u ''email'', PStr (u ''email1''))],
           [(u ''nome'', PStr (u ''name2'')), (u ''email'', PStr (u ''email3''))]]"]
    demo_rows_parsed
  by (simp add: csv_line_examples cell_def u_eq_iff py_str_def parse_schema_examples)

text \<open>
  C7.  For a dataset whose values are strings, numbers, booleans and null, the JSON
  writer emits an array with one object per record, in order, and each object has its
  members in the order of the record, which for a record of \<open>build_row\<close> is the order in
  which the names first occur in the schema.  Null is written \<open>null\<close>.  A string is
  written between quotes with every character that is not a control character, a
  quote or a backslash as it is: no character from 128 on is escaped.
\<close>

theorem json_dump_layout:
  "((\<forall>r \<in> set rows. \<forall>v \<in> snd ` set r. json_serializable v) \<longrightarrow>
      json_dump rows = Inr (json_array rows)) \<and>
   (build_row fl fake schema s = Inr (row, s') \<longrightarrow> map fst row = key_order schema) \<and>
   json_text PNone = u ''null'' \<and>
   ((\<forall>c \<in> set t. 32 \<le> c \<and> c \<noteq> 34 \<and> c \<noteq> 92) \<longrightarrow>
      json_text (PStr t) = [34] @ t @ [34]) \<and>
   (128 \<le> c \<longrightarrow> json_escape c = [c])"
proof (intro conjI impI)
  assume "\<forall>r \<in> set rows. \<forall>v \<in> snd ` set r. json_serializable v"
  then show "json_dump rows = Inr (json_array rows)"
    by (rule json_dump_text)
next
  assume "build_row fl fake schema s = Inr (row, s')"
  then show "map fst row = key_order schema"
    by (rule build_row_key_order)
next
  show "json_text PNone = u ''null''"
    by (simp add: json_text_def)
next
  assume "\<forall>c \<in> set t. 32 \<le> c \<and> c \<noteq> 34 \<and> c \<noteq> 92"
  then show "json_text (PStr t) = [34] @ t @ [34]"
    by (simp add: json_text_def encode_basestring_plain)
next
  assume "128 \<le> c"
  then show "json_escape c = [c]"
    by (simp add: json_escape_plain)
qed

theorem json_dump_layout_witness:
  "json_dump [[(u ''nome'', PStr [74, 111, 227, 111]), (u ''x'', PNone)]] =
     Inr [91, 10, 32, 32, 123, 10, 32, 32, 32, 32, 34, 110, 111, 109, 101, 34, 58, 32, 34,
       74, 111, 227, 111, 34, 44, 10, 32, 32, 32, 32, 34, 120, 34, 58, 32, 110, 117, 108,
       108, 10, 32, 32, 125, 10, 93] \<and>
   json_escape 227 = [227] \<and>
   build_row demo_float_2f demo_fake [u ''nome'', u ''email'', u '' nome''] (0, 100) =
     Inr ([(u ''nome'', PStr (u ''name2'')), (u ''email'', PStr (u ''email1''))], (3, 100)) \<and>
   key_order [u ''nome'', u ''email'', u '' nome''] = [u ''nome'', u ''email'']"
proof -
  have e: "build_row demo_float_2f demo_fake [u ''nome'', u ''email'', u '' nome''] (0, 100) =
     Inr ([(u ''nome'', PStr (u ''name2'')), (u ''email'', PStr (u ''email1''))], (3, 100))"
    by (simp add: demo_row_eval)
  have a: "json_array [[(u ''nome'', PStr [74, 111, 227, 111]), (u ''x'', PNone)]] =
      [91, 10, 32, 32, 123, 10, 32, 32, 32, 32, 34, 110, 111, 109, 101, 34, 58, 32, 34, 74,
        111, 227, 111, 34, 44, 10, 32, 32, 32, 32, 34, 120, 34, 58, 32, 110, 117, 108, 108,
        10, 32, 32, 125, 10, 93]"
    by (simp add: json_array_def json_object_def json_member_def json_text_def
        encode_basestring_def json_escape_def u_def)
  show ?thesis
    using json_dump_layout [of "[[(u ''nome'', PStr [74, 111, 227, 111]), (u ''x'', PNone)]]"
        demo_float_2f demo_fake "[u ''nome'', u ''email'', u '' nome'']" "(0, 100)"
        "[(u ''nome'', PStr (u ''name2'')), (u ''email'', PStr (u ''email1''))]" "(3, 100)"
        "[]" 227] e a
    by (simp add: json_serializable_def)
qed

text \<open>
  C8.  \<open>Faker.seed\<close> fixes the random source and nothing else, and the registry asks
  the provider for dates counted back from \<open>"now"\<close> (\<open>timestamp\<close>, \<open>data_nascimento\<close>).
  On a provider that reads the clock for them, two runs with the same seed, locale,
  schema and row count write different files when their clocks differ: here the clock
  stands at 100 in one run and at 200 in the other.  (What the program does ensure is
  \<open>main_seeded_deterministic\<close>: with a seed, the whole outcome is a function of the
  state the provider is in after seeding.)
\<close>

theorem seeded_runs_differ:
  "main demo_env
     \<lparr>arg_rows = 1, arg_locale = u ''pt_BR'', arg_format = Csv,
      arg_schema = u ''timestamp'', arg_output = Some (u ''out.csv''), arg_seed = Some 42\<rparr>
     (0, 100) =
   Inr (\<lparr>out_path = u ''out.csv'',
         out_text = u ''timestamp'' @ [13, 10] @ u ''98'' @ [13, 10],
         out_stdout =
           u ''Arquivo gerado: out.csv'' @ [10] @ u ''Campos: timestamp'' @ [10] @
           u ''Linhas: 1'' @ [10]\<rparr>, (43, 100)) \<and>
   main demo_env
     \<lparr>arg_rows = 1, arg_locale = u ''pt_BR'', arg_format = Csv,
      arg_schema = u ''timestamp'', arg_output = Some (u ''out.csv''), arg_seed = Some 42\<rparr>
     (0, 200) =
   Inr (\<lparr>out_path = u ''out.csv'',
         out_text = u ''timestamp'' @ [13, 10] @ u ''198'' @ [13, 10],
         out_stdout =
           u ''Arquivo gerado: out.csv'' @ [10] @ u ''Campos: timestamp'' @ [10] @
           u ''Linhas: 1'' @ [10]\<rparr>, (43, 200))"
  by (simp add: demo_timestamp_run digits_examples csv_line_examples)

text \<open>
  C9, as the code has it.  For a schema that is not empty and a dataset whose records
  have no key outside the schema, the written file parses back, with Python's own CSV
  reader, into the header and one row per record, and the records read, projected to
  the schema columns, hold for every value its CSV text: a string comes back as itself
  and null as the empty string, any other value as the string \<open>str()\<close> makes of it.
  So where every value is a string or null, what is read is the dataset up to the
  encoding of null.
\<close>

theorem csv_round_trip:
  assumes "schema \<noteq> []" and "\<forall>r \<in> set rows. set (map fst r) \<subseteq> set schema"
  shows "\<exists>content recs. write_csv schema rows = Inr content \<and>
      csv_reader content = Inr (schema # map (\<lambda>r. map (cell r) schema) rows) \<and>
      read_records content = Inr recs \<and>
      map (project schema) recs = map (\<lambda>r. map (\<lambda>k. PStr (cell r k)) schema) rows \<and>
      ((\<forall>r \<in> set rows. \<forall>k \<in> set schema.
          \<exists>v. map_of r k = Some v \<and> (v = PNone \<or> (\<exists>t. v = PStr t))) \<longrightarrow>
       map (project schema) recs = map (\<lambda>r. map null_to_empty (project schema r)) rows)"
proof -
  obtain content recs where w: "write_csv schema rows = Inr content"
    and c: "csv_reader content = Inr (schema # map (\<lambda>r. map (cell r) schema) rows)"
    and r: "read_records content = Inr recs"
    and p: "map (project schema) recs = map (\<lambda>r. map (\<lambda>k. PStr (cell r k)) schema) rows"
    using csv_read_back [OF assms] by (elim exE conjE)
  have q: "map (project schema) recs = map (\<lambda>r. map null_to_empty (project schema r)) rows"
    if h: "\<forall>r \<in> set rows. \<forall>k \<in> set schema.
          \<exists>v. map_of r k = Some v \<and> (v = PNone \<or> (\<exists>t. v = PStr t))"
  proof -
    have "map (\<lambda>k. PStr (cell r k)) schema = map null_to_empty (project schema r)"
      if "r \<in> set rows" for r
      using h that by (intro project_null_to_empty) (rule bspec)
    then have "map (\<lambda>r. map (\<lambda>k. PStr (cell r k)) schema) rows =
        map (\<lambda>r. map null_to_empty (project schema r)) rows"
      by (simp only: map_eq_conv) (intro ballI)
    then show ?thesis
      by (simp only: p)
  qed
  show ?thesis
  proof (intro exI conjI impI)
    show "write_csv schema rows = Inr content" by (rule w)
    show "csv_reader content = Inr (schema # map (\<lambda>r. map (cell r) schema) rows)" by (rule c)
    show "read_records content = Inr recs" by (rule r)
    show "map (project schema) recs = map (\<lambda>r. map (\<lambda>k. PStr (cell r k)) schema) rows"
      by (rule p)
    assume "\<forall>r \<in> set rows. \<forall>k \<in> set schema.
          \<exists>v. map_of r k = Some v \<and> (v = PNone \<or> (\<exists>t. v = PStr t))"
    then show "map (project schema) recs =
        map (\<lambda>r. map null_to_empty (project schema r)) rows"
      by (rule q)
  qed
qed

theorem csv_round_trip_witness:
  "[u ''nome'', u ''x''] \<noteq> [] \<and>
   set (map fst [(u ''nome'', PStr (u ''Silva, Ana'')), (u ''x'', PNone)]) \<subseteq>
     set [u ''nome'', u ''x''] \<and>
   (\<exists>content recs.
      write_csv [u ''nome'', u ''x'']
        [[(u ''nome'', PStr (u ''Silva, Ana'')), (u ''x'', PNone)]] = Inr content \<and>
      csv_reader content = Inr [[u ''nome'', u ''x''], [u ''Silva, Ana'', []]] \<and>
      read_records content = Inr recs \<and>
      map (project [u ''nome'', u ''x'']) recs = [[PStr (u ''Silva, Ana''), PStr []]])"
proof -
  have n: "[u ''nome'', u ''x''] \<noteq> []"
    by simp
  have k: "\<forall>r \<in> set [[(u ''nome'', PStr (u ''Silva, Ana'')), (u ''x'', PNone)]].
      set (map fst r) \<subseteq> set [u ''nome'', u ''x'']"
    by simp
  obtain content recs where w: "write_csv [u ''nome'', u ''x'']
        [[(u ''nome'', PStr (u ''Silva, Ana'')), (u ''x'', PNone)]] = Inr content"
    and c: "csv_reader content =
        Inr ([u ''nome'', u ''x''] #
          map (\<lambda>r. map (cell r) [u ''nome'', u ''x''])
            [[(u ''nome'', PStr (u ''Silva, Ana'')), (u ''x'', PNone)]])"
    and r: "read_records content = Inr recs"
    and p: "map (project [u ''nome'', u ''x'']) recs =
        map (\<lambda>r. map (\<lambda>k. PStr (cell r k)) [u ''nome'', u ''x''])
          [[(u ''nome'', PStr (u ''Silva, Ana'')), (u ''x'', PNone)]]"
    using csv_round_trip [OF n k] by (elim exE conjE)
  have c': "csv_reader content = Inr [[u ''nome'', u ''x''], [u ''Silva, Ana'', []]]"
    using c by (simp add: cell_def u_eq_iff py_str_def)
  have p': "map (project [u ''nome'', u ''x'']) recs = [[PStr (u ''Silva, Ana''), PStr []]]"
    using p by (simp add: cell_def u_eq_iff py_str_def)
  show ?thesis
    using n w c' r p' by (intro conjI exI) simp_all
qed

text \<open>
  The claim as it is worded fails on the one generator of the registry that does not
  return a string: \<open>preco\<close> is a float in the dataset, and what is read back is the
  string of its digits.
\<close>

theorem csv_round_trip_changes_float:
  "build_row demo_float_2f demo_fake [u ''preco''] (1, 100) =
     Inr ([(u ''preco'', PFloat (u ''1.5''))], (2, 100)) \<and>
   write_csv [u ''preco''] [[(u ''preco'', PFloat (u ''1.5''))]] =
     Inr (u ''preco'' @ [13, 10] @ u ''1.5'' @ [13, 10]) \<and>
   read_records (u ''preco'' @ [13, 10] @ u ''1.5'' @ [13, 10]) =
     Inr [[(u ''preco'', PStr (u ''1.5''))]] \<and>
   project [u ''preco''] [(u ''preco'', PStr (u ''1.5''))] = [PStr (u ''1.5'')] \<and>
   map null_to_empty (project [u ''preco''] [(u ''preco'', PFloat (u ''1.5''))]) =
     [PFloat (u ''1.5'')] \<and>
   PStr (u ''1.5'') \<noteq> PFloat (u ''1.5'')"
proof -
  have b: "build_row demo_float_2f demo_fake [u ''preco''] (1, 100) =
     Inr ([(u ''preco'', PFloat (u ''1.5''))], (2, 100))"
    by (simp add: demo_row_eval)
  have w: "write_csv [u ''preco''] [[(u ''preco'', PFloat (u ''1.5''))]] =
     Inr (u ''preco'' @ [13, 10] @ u ''1.5'' @ [13, 10])"
    by (simp add: write_csv_lines csv_line_examples2 cell_def py_str_def)
  have "csv_reader (concat (map csv_line [[u ''preco''], [u ''1.5'']])) =
      Inr [[u ''preco''], [u ''1.5'']]"
    by (rule csv_reader_lines)
  then have c: "csv_reader (u ''preco'' @ [13, 10] @ u ''1.5'' @ [13, 10]) =
      Inr [[u ''preco''], [u ''1.5'']]"
    by (simp add: csv_line_examples2)
  have r: "read_records (u ''preco'' @ [13, 10] @ u ''1.5'' @ [13, 10]) =
     Inr [[(u ''preco'', PStr (u ''1.5''))]]"
    unfolding read_records_def c by (simp add: dict_of_def)
  have p: "project [u ''preco''] [(u ''preco'', PStr (u ''1.5''))] = [PStr (u ''1.5'')]"
    by (simp add: project_def dict_get_def)
  have m: "map null_to_empty (project [u ''preco''] [(u ''preco'', PFloat (u ''1.5''))]) =
     [PFloat (u ''1.5'')]"
    by (simp add: project_def dict_get_def null_to_empty_def)
  show ?thesis
    using b w r p m by simp
qed

text \<open>
  C10.  With a negative row count \<open>main\<close> does what it does with the count 0, whatever
  that is: the dataset is empty and the provider untouched, the CSV text is the header
  line only and the JSON text the empty array.  The run ends normally, with that text in
  the file, whenever the provider can be made for the locale, the file can be opened,
  the schema argument holds no lone surrogate (so that UTF-8 encodes the header line)
  and the standard output takes the three lines printed.
\<close>

theorem negative_rows_like_zero:
  assumes "arg_rows args < 0"
  shows "main env args s = main env (args\<lparr>arg_rows := 0\<rparr>) s \<and>
    build_dataset fl fake schema (arg_rows args) t = Inr ([], t) \<and>
    serialize Csv schema [] = Inr (csv_line schema) \<and>
    serialize Json schema [] = Inr (u ''[]'') \<and>
    ((\<exists>fk. Faker env (arg_locale args) = Inr fk) \<and> (\<forall>p. open_w env p = None) \<and>
     (\<forall>l. print_line env l = None) \<and> utf8_encodable (arg_schema args) \<longrightarrow>
       (\<exists>out s'. main env args s = Inr (out, s') \<and>
          out_text out =
            (case arg_format args of
               Csv \<Rightarrow> csv_line (parse_schema (arg_schema args))
             | Json \<Rightarrow> u ''[]'')))"
proof (intro conjI impI)
  have a: "arg_rows args \<le> 0"
    using assms by simp
  have b: "arg_rows (args\<lparr>arg_rows := 0\<rparr>) \<le> 0"
    by simp
  show "main env args s = main env (args\<lparr>arg_rows := 0\<rparr>) s"
    by (cases "Faker env (arg_locale args)"; cases "arg_output args")
      (simp_all add: main_nonpos [OF a] main_nonpos [OF b] Let_def
        split: option.splits sum.splits)
  show "build_dataset fl fake schema (arg_rows args) t = Inr ([], t)"
    using a by (rule build_dataset_nonpos)
  show "serialize Csv schema [] = Inr (csv_line schema)"
    by (rule serialize_empty)
  show "serialize Json schema [] = Inr (u ''[]'')"
    by (rule serialize_empty)
  assume h: "(\<exists>fk. Faker env (arg_locale args) = Inr fk) \<and> (\<forall>p. open_w env p = None) \<and>
     (\<forall>l. print_line env l = None) \<and> utf8_encodable (arg_schema args)"
  then obtain fk where fk: "Faker env (arg_locale args) = Inr fk"
    by (elim exE conjE)
  have o: "open_w env p = None" for p
    using h by simp
  have p: "print_line env l = None" for l
    using h by simp
  have e: "list_all utf8_encodable (parse_schema (arg_schema args))"
    using h by (simp add: utf8_encodable_parse_schema)
  show "\<exists>out s'. main env args s = Inr (out, s') \<and>
          out_text out =
            (case arg_format args of
               Csv \<Rightarrow> csv_line (parse_schema (arg_schema args))
             | Json \<Rightarrow> u ''[]'')"
    by (cases "arg_format args")
      (simp_all add: main_nonpos [OF a] fk o e write_file_empty print_lines_all [OF p] Let_def)
qed

theorem negative_rows_like_zero_witness:
  "(-3::int) < 0 \<and>
   Faker demo_env (u ''pt_BR'') = Inr demo_fake \<and>
   (\<forall>p. open_w demo_env p = None) \<and>
   (\<forall>l. print_line demo_env l = None) \<and>
   utf8_encodable (u ''nome, email'') \<and>
   main demo_env
     \<lparr>arg_rows = -3, arg_locale = u ''pt_BR'', arg_format = Csv,
      arg_schema = u ''nome, email'', arg_output = Some (u ''out.csv''), arg_seed = Some 42\<rparr>
     (0, 100) =
   main demo_env
     \<lparr>arg_rows = 0, arg_locale = u ''pt_BR'', arg_format = Csv,
      arg_schema = u ''nome, email'', arg_output = Some (u ''out.csv''), arg_seed = Some 42\<rparr>
     (0, 100) \<and>
   main demo_env
     \<lparr>arg_rows = -3, arg_locale = u ''pt_BR'', arg_format = Csv,
      arg_schema = u ''nome, email'', arg_output = Some (u ''out.csv''), arg_seed = Some 42\<rparr>
     (0, 100) =
   Inr (\<lparr>out_path = u ''out.csv'', out_text = u ''nome,email'' @ [13, 10],
         out_stdout =
           u ''Arquivo gerado: out.csv'' @ [10] @ u ''Campos: nome, email'' @ [10] @
           u ''Linhas: 0'' @ [10]\<rparr>, (42, 100))"
proof -
  have e: "main demo_env
     \<lparr>arg_rows = 0, arg_locale = u ''pt_BR'', arg_format = Csv,
      arg_schema = u ''nome, email'', arg_output = Some (u ''out.csv''), arg_seed = Some 42\<rparr>
     (0, 100) =
   Inr (\<lparr>out_path = u ''out.csv'', out_text = u ''nome,email'' @ [13, 10],
         out_stdout =
           u ''Arquivo gerado: out.csv'' @ [10] @ u ''Campos: nome, email'' @ [10] @
           u ''Linhas: 0'' @ [10]\<rparr>, (42, 100))"
    by (simp add: main_nonpos demo_env_def parse_schema_examples csv_line_examples Let_def
        write_file_empty int_str_def digits_small u_append)
  show ?thesis
    using negative_rows_like_zero [where args =
      "\<lparr>arg_rows = -3, arg_locale = u ''pt_BR'', arg_format = Csv,
      arg_schema = u ''nome, email'', arg_output = Some (u ''out.csv''), arg_seed = Some 42\<rparr>"
      and env = demo_env and s = "(0, 100)" and fl = demo_float_2f and fake = demo_fake
      and schema = "[]" and t = "(0, 100)"] e
    by (simp add: u_append demo_env_def)
qed

end
